theory Spec2Isabelle
  imports Main "HOL-Library.Log_Nat" "HOL-Library.Sublist" "HOL-Library.Multiset"
begin

section \<open>JavaScript numbers\<close>

text \<open>
  The scores of \<^verbatim>\<open>enhancedExcelParser.ts\<close> are JavaScript numbers: IEEE 754 binary64
  values. A finite value is modelled by the rational it denotes, and every arithmetic
  operation rounds its exact result to the nearest value with a 53-bit significand,
  ties to even (\<open>fl\<close>). The exponent range is not modelled: the finite values that arise
  here are 0 or lie between \<open>1 / n\<close> (\<open>n\<close> an array length) and 2, far from overflow and
  from the subnormal range. Every operand is non-negative, so the only special values
  that could arise are \<open>+Infinity\<close> (a positive number divided by 0) and \<open>NaN\<close> (0 / 0).
\<close>

definition pow2 :: "int \<Rightarrow> rat" where
  "pow2 e = (if 0 \<le> e then 2 ^ nat e else 1 / 2 ^ nat (- e))"

text \<open>The binary exponent \<open>\<lfloor>log\<^sub>2 x\<rfloor>\<close> of a positive rational.\<close>

definition binexp :: "rat \<Rightarrow> int" where
  "binexp x = (if 1 \<le> x then bitlen \<lfloor>x\<rfloor> - 1 else - bitlen (\<lceil>1 / x\<rceil> - 1))"

definition roundTiesToEven :: "rat \<Rightarrow> int" where
  "roundTiesToEven x =
     (let f = \<lfloor>x\<rfloor>; d = x - of_int f
      in if d < 1 / 2 then f else if 1 / 2 < d then f + 1 else if even f then f else f + 1)"

definition fl :: "rat \<Rightarrow> rat" where
  "fl x = (if x = 0 then 0
           else let u = pow2 (binexp \<bar>x\<bar> - 52)
                in sgn x * of_int (roundTiesToEven (\<bar>x\<bar> / u)) * u)"

datatype number = Fin rat | PInf | NaN

text \<open>The number literals of the source: \<^verbatim>\<open>0.3\<close>, \<^verbatim>\<open>0.4\<close>, \<^verbatim>\<open>0.2\<close> denote the nearest doubles.\<close>

definition num_0_3 :: number where "num_0_3 = Fin (fl (3 / 10))"
definition num_0_4 :: number where "num_0_4 = Fin (fl (4 / 10))"
definition num_0_2 :: number where "num_0_2 = Fin (fl (2 / 10))"
definition num_0_5 :: number where "num_0_5 = Fin (1 / 2)"

text \<open>\<^verbatim>\<open>a.length / b.length\<close>: the quotient of two array lengths.\<close>

definition js_div :: "nat \<Rightarrow> nat \<Rightarrow> number" where
  "js_div a b = (if b = 0 then (if a = 0 then NaN else PInf)
                 else Fin (fl (of_nat a / of_nat b)))"

text \<open>\<^verbatim>\<open>x * y\<close> and \<^verbatim>\<open>x + y\<close> on non-negative operands.\<close>

fun js_times :: "number \<Rightarrow> number \<Rightarrow> number" where
  "js_times NaN y = NaN"
| "js_times x NaN = NaN"
| "js_times (Fin x) (Fin y) = Fin (fl (x * y))"
| "js_times PInf (Fin y) = (if y = 0 then NaN else PInf)"
| "js_times (Fin x) PInf = (if x = 0 then NaN else PInf)"
| "js_times PInf PInf = PInf"

fun js_plus :: "number \<Rightarrow> number \<Rightarrow> number" where
  "js_plus NaN y = NaN"
| "js_plus x NaN = NaN"
| "js_plus (Fin x) (Fin y) = Fin (fl (x + y))"
| "js_plus x y = PInf"

text \<open>\<^verbatim>\<open>Math.min(x, y)\<close>: \<open>NaN\<close> if either argument is.\<close>

fun Math_min :: "number \<Rightarrow> number \<Rightarrow> number" where
  "Math_min NaN y = NaN"
| "Math_min x NaN = NaN"
| "Math_min (Fin x) (Fin y) = Fin (min x y)"
| "Math_min PInf y = y"
| "Math_min x PInf = x"

text \<open>\<^verbatim>\<open>x > y\<close>: false whenever an operand is \<open>NaN\<close>.\<close>

fun js_gt :: "number \<Rightarrow> number \<Rightarrow> bool" where
  "js_gt NaN y = False"
| "js_gt x NaN = False"
| "js_gt (Fin x) (Fin y) = (y < x)"
| "js_gt PInf PInf = False"
| "js_gt PInf (Fin y) = True"
| "js_gt (Fin x) PInf = False"

text \<open>\<^verbatim>\<open>x <= y\<close>, used to state properties only.\<close>

fun js_le :: "number \<Rightarrow> number \<Rightarrow> bool" where
  "js_le NaN y = False"
| "js_le x NaN = False"
| "js_le (Fin x) (Fin y) = (x \<le> y)"
| "js_le x PInf = True"
| "js_le PInf (Fin y) = False"

section \<open>JavaScript strings\<close>

text \<open>
  Strings are modelled as \<^typ>\<open>string\<close> over ASCII: \<open>toLowerCase\<close> maps \<open>A\<close>-\<open>Z\<close> to
  \<open>a\<close>-\<open>z\<close>, and \<open>trim\<close> strips the ASCII white space characters from both ends.
\<close>

definition toLowerCase :: "string \<Rightarrow> string" where
  "toLowerCase s =
     map (\<lambda>c. let n = (of_char c :: nat) in if 65 \<le> n \<and> n \<le> 90 then char_of (n + 32) else c) s"

definition isWhiteSpace :: "char \<Rightarrow> bool" where
  "isWhiteSpace c = ((of_char c :: nat) \<in> {32, 9, 10, 11, 12, 13})"

definition trim :: "string \<Rightarrow> string" where
  "trim s = rev (dropWhile isWhiteSpace (rev (dropWhile isWhiteSpace s)))"

text \<open>\<^verbatim>\<open>s.split(sep)\<close> for a one-character separator: the empty string gives \<open>['''']\<close>.\<close>

fun split :: "char \<Rightarrow> string \<Rightarrow> string list" where
  "split sep [] = [[]]"
| "split sep (c # cs) =
     (if c = sep then [] # split sep cs
      else (case split sep cs of [] \<Rightarrow> [[c]] | w # ws \<Rightarrow> (c # w) # ws))"

text \<open>\<^verbatim>\<open>s.includes(t)\<close>: \<open>t\<close> occurs in \<open>s\<close> as a substring.\<close>

fun includes_str :: "string \<Rightarrow> string \<Rightarrow> bool" where
  "includes_str [] t = (t = [])"
| "includes_str (c # cs) t = (prefix t (c # cs) \<or> includes_str cs t)"

text \<open>Template interpolation of a non-negative integer, as in \<^verbatim>\<open>`cluster-${n}`\<close>.\<close>

definition digit :: "nat \<Rightarrow> char" where
  "digit d = ''0123456789'' ! d"

fun decimal :: "nat \<Rightarrow> string" where
  "decimal n = (if n div 10 = 0 then [digit n] else decimal (n div 10) @ [digit (n mod 10)])"

section \<open>Data model\<close>

text \<open>
  A row is an object with optional string properties; \<open>undefined\<close> is \<open>None\<close>. Rows are
  objects compared by identity (\<^verbatim>\<open>row !== currentRow\<close>), so the row array is a list of
  references into a heap of row objects.
\<close>

record EnhancedExcelRow =
  B :: "string option"
  C :: "string option"
  D :: "string option"
  published_url :: "string option"

type_synonym ref = nat
type_synonym heap = "ref \<Rightarrow> EnhancedExcelRow"

text \<open>\<^verbatim>\<open>x || d\<close> on an optional string, and the truthiness of one.\<close>

definition orElse :: "string option \<Rightarrow> string \<Rightarrow> string" where
  "orElse x d = (case x of None \<Rightarrow> d | Some s \<Rightarrow> if s = [] then d else s)"

definition truthy :: "string option \<Rightarrow> bool" where
  "truthy x = (case x of None \<Rightarrow> False | Some s \<Rightarrow> s \<noteq> [])"

datatype error = TypeError

text \<open>The argument objects \<^verbatim>\<open>{ title, keywords, pillar }\<close> of \<open>calculateSimilarity\<close>.\<close>

record post =
  title :: "string option"
  keywords' :: "string option"
  pillar :: "string option"

record relatedPost =
  index :: nat
  similarity :: number
  row :: ref

record linkOpportunity =
  fromIndex :: nat
  toIndex :: nat
  suggestedAnchor :: string
  relevance :: number

record SemanticCluster =
  cluster_id :: string
  mainPost :: "nat \<times> ref"
  relatedPosts :: "relatedPost list"
  theme :: string
  internalLinkOpportunities :: "linkOpportunity list"

record InternalLinkOpportunity =
  postIndex :: nat
  link_title :: string
  url :: string
  suggestedLinks :: "string list"

record ContentGap =
  gap_pillar :: string
  currentCount :: nat
  suggestedCount :: int
  gap :: int

record ContentAnalysisResult =
  totalPosts :: nat
  publishedPosts :: nat
  pillarDistribution :: "(string \<times> nat) list"
  semanticClusters :: "SemanticCluster list"
  linkOpportunities :: "InternalLinkOpportunity list"
  contentGaps :: "ContentGap list"

section \<open>Similarity scoring\<close>

text \<open>\<open>calculateTextSimilarity\<close> (lines 129-134).\<close>

definition calculateTextSimilarity :: "string \<Rightarrow> string \<Rightarrow> number" where
  "calculateTextSimilarity text1 text2 =
     (let words1 = split CHR '' '' (toLowerCase text1);
          words2 = split CHR '' '' (toLowerCase text2);
          sharedWords = filter (\<lambda>word. word \<in> set words2) words1
      in js_div (length sharedWords) (max (length words1) (length words2)))"

text \<open>
  \<open>calculateSimilarity\<close> (lines 115-127). The keyword token list and the keyword ratio
  are the constants \<open>keywords1\<close> and \<open>keywordSimilarity\<close> of the source, named here as
  functions of the raw keyword strings.
\<close>

definition keywordTokens :: "string \<Rightarrow> string list" where
  "keywordTokens ks = map trim (split CHR '','' (toLowerCase ks))"

definition keywordSimilarity :: "string \<Rightarrow> string \<Rightarrow> number" where
  "keywordSimilarity ks1 ks2 =
     (let keywords1 = keywordTokens ks1;
          keywords2 = keywordTokens ks2;
          sharedKeywords = filter (\<lambda>k. k \<in> set keywords2) keywords1
      in js_div (length sharedKeywords) (max (length keywords1) (length keywords2)))"

text \<open>
  The parameters are typed \<^verbatim>\<open>any\<close>; \<^verbatim>\<open>post1.keywords.toLowerCase()\<close> and
  \<^verbatim>\<open>text1.toLowerCase()\<close> throw a \<open>TypeError\<close> on \<open>undefined\<close>.
\<close>

definition calculateSimilarity :: "post \<Rightarrow> post \<Rightarrow> error + number" where
  "calculateSimilarity post1 post2 =
     (case (keywords' post1, keywords' post2, title post1, title post2) of
        (Some ks1, Some ks2, Some text1, Some text2) \<Rightarrow>
          (let pillarMatch = (if pillar post1 = pillar post2 then num_0_3 else Fin 0);
               titleSimilarity = js_times (calculateTextSimilarity text1 text2) num_0_4
           in Inr (Math_min
                     (js_plus (js_plus (js_times (keywordSimilarity ks1 ks2) num_0_5) pillarMatch)
                        titleSimilarity)
                     (Fin 1)))
      | _ \<Rightarrow> Inl TypeError)"

section \<open>Sequencing callbacks that may throw\<close>

text \<open>
  \<^verbatim>\<open>Array.prototype.map\<close>, \<^verbatim>\<open>filter\<close> and \<^verbatim>\<open>forEach\<close> with a callback that may throw:
  the first exception ends the traversal and is the result.
\<close>

fun mapE :: "('a \<Rightarrow> error + 'b) \<Rightarrow> 'a list \<Rightarrow> error + 'b list" where
  "mapE f [] = Inr []"
| "mapE f (x # xs) =
     (case f x of
        Inl e \<Rightarrow> Inl e
      | Inr y \<Rightarrow> (case mapE f xs of Inl e \<Rightarrow> Inl e | Inr ys \<Rightarrow> Inr (y # ys)))"

fun filterE :: "('a \<Rightarrow> error + bool) \<Rightarrow> 'a list \<Rightarrow> error + 'a list" where
  "filterE f [] = Inr []"
| "filterE f (x # xs) =
     (case f x of
        Inl e \<Rightarrow> Inl e
      | Inr b \<Rightarrow> (case filterE f xs of
                    Inl e \<Rightarrow> Inl e
                  | Inr ys \<Rightarrow> Inr (if b then x # ys else ys)))"

fun forEachE :: "('s \<Rightarrow> 'a \<Rightarrow> error + 's) \<Rightarrow> 'a list \<Rightarrow> 's \<Rightarrow> error + 's" where
  "forEachE f [] s = Inr s"
| "forEachE f (x # xs) s = (case f s x of Inl e \<Rightarrow> Inl e | Inr s' \<Rightarrow> forEachE f xs s')"

text \<open>\<^verbatim>\<open>.filter(post => post !== null)\<close>.\<close>

definition filterNotNull :: "'a option list \<Rightarrow> 'a list" where
  "filterNotNull xs = concat (map (\<lambda>x. case x of None \<Rightarrow> [] | Some p \<Rightarrow> [p]) xs)"

section \<open>Clustering\<close>

text \<open>\<open>extractTheme\<close> (lines 136-140) and \<open>generateAnchorText\<close> (lines 142-144).\<close>

definition commonThemes :: "string list" where
  "commonThemes =
     [''wine tasting'', ''wedding'', ''vineyard'', ''events'', ''sustainability'', ''harvest'']"

definition extractTheme :: "string \<Rightarrow> string \<Rightarrow> string" where
  "extractTheme title_s keywords_s =
     (let allWords = toLowerCase (title_s @ '' '' @ keywords_s)
      in (case find (\<lambda>t. includes_str allWords t) commonThemes of
            None \<Rightarrow> ''General''
          | Some t \<Rightarrow> t))"

definition generateAnchorText :: "string \<Rightarrow> string" where
  "generateAnchorText title_s =
     (if length title_s > 50 then take 47 title_s @ ''...'' else title_s)"

text \<open>
  The object \<^verbatim>\<open>{ title: row.B || '', keywords: row.C || '', pillar: row.D || '' }\<close> that
  the clustering passes to \<open>calculateSimilarity\<close> for a row (lines 71-73 and 81-85).
\<close>

definition rowPost :: "heap \<Rightarrow> ref \<Rightarrow> post" where
  "rowPost h r = \<lparr>title = Some (orElse (B (h r)) []),
                  keywords' = Some (orElse (C (h r)) []),
                  pillar = Some (orElse (D (h r)) [])\<rparr>"

text \<open>The callback of \<^verbatim>\<open>rows.map\<close> at lines 76-89, at the turn of the row \<open>cur\<close>.\<close>

definition similarPost ::
  "heap \<Rightarrow> nat set \<Rightarrow> nat \<times> ref \<Rightarrow> nat \<times> ref \<Rightarrow> error + relatedPost option" where
  "similarPost h processed cur other =
     (case other of (otherIndex, otherRow) \<Rightarrow>
        if fst cur = otherIndex \<or> otherIndex \<in> processed then Inr None
        else (case calculateSimilarity (rowPost h (snd cur)) (rowPost h otherRow) of
                Inl e \<Rightarrow> Inl e
              | Inr sim \<Rightarrow>
                  Inr (if js_gt sim num_0_3
                       then Some \<lparr>index = otherIndex, similarity = sim, row = otherRow\<rparr>
                       else None)))"

text \<open>The array \<open>similarPosts\<close> (lines 75-90) built at the turn of row \<open>index\<close>.\<close>

definition similarPosts ::
  "heap \<Rightarrow> ref list \<Rightarrow> nat set \<Rightarrow> nat \<times> ref \<Rightarrow> error + relatedPost list" where
  "similarPosts h rows processed cur =
     (case mapE (similarPost h processed cur) (enumerate 0 rows) of
        Inl e \<Rightarrow> Inl e
      | Inr posts \<Rightarrow> Inr (filterNotNull posts))"

text \<open>
  The body of \<^verbatim>\<open>rows.forEach\<close> (lines 68-110); the state is the pair of the mutable
  locals \<open>clusters\<close> and \<open>processed\<close>.
\<close>

definition visitRow ::
  "heap \<Rightarrow> ref list \<Rightarrow> SemanticCluster list \<times> nat set \<Rightarrow> nat \<times> ref
    \<Rightarrow> error + SemanticCluster list \<times> nat set" where
  "visitRow h rows st cur =
     (case st of (clusters, processed) \<Rightarrow>
        if fst cur \<in> processed then Inr st
        else (case similarPosts h rows processed cur of
                Inl e \<Rightarrow> Inl e
              | Inr posts \<Rightarrow>
                  if length posts > 0
                  then Inr (clusters @
                        [\<lparr>cluster_id = ''cluster-'' @ decimal (length clusters),
                          mainPost = cur,
                          relatedPosts = posts,
                          theme = extractTheme (orElse (B (h (snd cur))) [])
                                    (orElse (C (h (snd cur))) []),
                          internalLinkOpportunities =
                            map (\<lambda>p. \<lparr>fromIndex = fst cur, toIndex = index p,
                                       suggestedAnchor =
                                         generateAnchorText (orElse (B (h (row p))) []),
                                       relevance = similarity p\<rparr>) posts\<rparr>],
                        insert (fst cur) processed \<union> set (map index posts))
                  else Inr st))"

definition identifySemanticClusters :: "heap \<Rightarrow> ref list \<Rightarrow> error + SemanticCluster list" where
  "identifySemanticClusters h rows =
     (case forEachE (visitRow h rows) (enumerate 0 rows) ([], {}) of
        Inl e \<Rightarrow> Inl e
      | Inr (clusters, processed) \<Rightarrow> Inr clusters)"

section \<open>Internal link opportunities\<close>

text \<open>
  The object \<^verbatim>\<open>{ title: row.B, keywords: row.C, pillar: row.D }\<close> of lines 163-164: the
  fields are passed as they are, \<open>undefined\<close> included.
\<close>

definition rawPost :: "heap \<Rightarrow> ref \<Rightarrow> post" where
  "rawPost h r = \<lparr>title = B (h r), keywords' = C (h r), pillar = D (h r)\<rparr>"

text \<open>\<open>findRelatedPublishedPosts\<close> (lines 158-170).\<close>

definition findRelatedPublishedPosts :: "heap \<Rightarrow> ref \<Rightarrow> ref list \<Rightarrow> error + string list" where
  "findRelatedPublishedPosts h currentRow allRows =
     (case filterE
             (\<lambda>r. case calculateSimilarity (rawPost h currentRow) (rawPost h r) of
                     Inl e \<Rightarrow> Inl e
                   | Inr sim \<Rightarrow> Inr (js_gt sim num_0_2))
             (filter (\<lambda>r. truthy (published_url (h r)) \<and> r \<noteq> currentRow) allRows) of
        Inl e \<Rightarrow> Inl e
      | Inr related \<Rightarrow> Inr (map (\<lambda>r. orElse (published_url (h r)) []) (take 3 related)))"

text \<open>\<open>identifyInternalLinkOpportunities\<close> (lines 146-156).\<close>

definition identifyInternalLinkOpportunities ::
  "heap \<Rightarrow> ref list \<Rightarrow> error + InternalLinkOpportunity list" where
  "identifyInternalLinkOpportunities h rows =
     mapE (\<lambda>(i, r). case findRelatedPublishedPosts h r rows of
                      Inl e \<Rightarrow> Inl e
                    | Inr links \<Rightarrow>
                        Inr \<lparr>postIndex = i,
                             link_title = orElse (B (h r)) [],
                             url = orElse (published_url (h r)) [],
                             suggestedLinks = links\<rparr>)
       (enumerate 0 (filter (\<lambda>r. truthy (published_url (h r))) rows))"

section \<open>Pillar distribution and content gaps\<close>

text \<open>
  \<open>analyzePillarDistribution\<close> (lines 55-62). The result object is an association list
  in insertion order, which is the order of \<^verbatim>\<open>Object.entries\<close> for keys that are not
  array indices; keys are taken not to be names inherited from \<^verbatim>\<open>Object.prototype\<close>.
\<close>

fun increment :: "(string \<times> nat) list \<Rightarrow> string \<Rightarrow> (string \<times> nat) list" where
  "increment [] k = [(k, 1)]"
| "increment ((k', n) # kvs) k =
     (if k' = k then (k', n + 1) # kvs else (k', n) # increment kvs k)"

definition analyzePillarDistribution :: "heap \<Rightarrow> ref list \<Rightarrow> (string \<times> nat) list" where
  "analyzePillarDistribution h rows =
     foldl (\<lambda>distribution r. increment distribution (orElse (D (h r)) ''Unknown'')) [] rows"

text \<open>\<open>identifyContentGaps\<close> (lines 172-184).\<close>

definition identifyContentGaps :: "heap \<Rightarrow> ref list \<Rightarrow> ContentGap list" where
  "identifyContentGaps h rows =
     (let pillarCounts = analyzePillarDistribution h rows;
          total = length rows;
          suggested = \<lceil>fl (of_nat total * fl (2 / 10))\<rceil>
      in filter (\<lambda>g. gap g > 0)
           (map (\<lambda>(p, n). \<lparr>gap_pillar = p, currentCount = n,
                                 suggestedCount = suggested,
                                 gap = max 0 (suggested - int n)\<rparr>) pillarCounts))"

text \<open>\<open>analyzeContentHolistically\<close> (lines 44-53).\<close>

definition analyzeContentHolistically :: "heap \<Rightarrow> ref list \<Rightarrow> error + ContentAnalysisResult" where
  "analyzeContentHolistically h rows =
     (case identifySemanticClusters h rows of
        Inl e \<Rightarrow> Inl e
      | Inr clusters \<Rightarrow>
          (case identifyInternalLinkOpportunities h rows of
             Inl e \<Rightarrow> Inl e
           | Inr links \<Rightarrow>
               Inr \<lparr>totalPosts = length rows,
                    publishedPosts = length (filter (\<lambda>r. truthy (published_url (h r))) rows),
                    pillarDistribution = analyzePillarDistribution h rows,
                    semanticClusters = clusters,
                    linkOpportunities = links,
                    contentGaps = identifyContentGaps h rows\<rparr>))"

section \<open>Notions used to state the properties\<close>

text \<open>The row indices a cluster holds: its anchor, then its members.\<close>

definition clusterIndices :: "SemanticCluster \<Rightarrow> nat list" where
  "clusterIndices c = fst (mainPost c) # map index (relatedPosts c)"

text \<open>The row objects a cluster groups, and the grouping a clustering induces.\<close>

definition clusterRows :: "SemanticCluster \<Rightarrow> ref set" where
  "clusterRows c = insert (snd (mainPost c)) (set (map row (relatedPosts c)))"

definition grouping :: "SemanticCluster list \<Rightarrow> ref set set" where
  "grouping cs = set (map clusterRows cs)"

text \<open>The state of the scan when it reaches row \<open>i\<close>: the rows before \<open>i\<close> have had their turn.\<close>

definition stateAtTurn ::
  "heap \<Rightarrow> ref list \<Rightarrow> nat \<Rightarrow> error + SemanticCluster list \<times> nat set" where
  "stateAtTurn h rows i = forEachE (visitRow h rows) (take i (enumerate 0 rows)) ([], {})"

text \<open>A member list in descending order of score, as the specification words it.\<close>

definition descendingBySimilarity :: "relatedPost list \<Rightarrow> bool" where
  "descendingBySimilarity ps = sorted_wrt (\<lambda>p q. js_le (similarity q) (similarity p)) ps"

text \<open>Whether a row has a non-empty \<open>published_url\<close>.\<close>

definition published :: "heap \<Rightarrow> ref \<Rightarrow> bool" where
  "published h r = truthy (published_url (h r))"

text \<open>Example inputs: a heap holding the given row objects at the references 0, 1, ...\<close>

definition emptyRow :: EnhancedExcelRow where
  "emptyRow = \<lparr>B = None, C = None, D = None, published_url = None\<rparr>"

definition heapOf :: "EnhancedExcelRow list \<Rightarrow> heap" where
  "heapOf rs r = (if r < length rs then rs ! r else emptyRow)"

definition mkRow :: "string \<Rightarrow> string \<Rightarrow> string \<Rightarrow> string option \<Rightarrow> EnhancedExcelRow" where
  "mkRow t k p u = \<lparr>B = Some t, C = Some k, D = Some p, published_url = u\<rparr>"

text \<open>
  The score of two rows as the clustering computes it, and its comparison with a
  threshold (\<open>NaN\<close> and \<open>False\<close> stand in for a thrown exception, which does not occur).
\<close>

definition scoreOf :: "heap \<Rightarrow> ref \<Rightarrow> ref \<Rightarrow> number" where
  "scoreOf h a b = (case calculateSimilarity (rowPost h a) (rowPost h b) of
                      Inl e \<Rightarrow> NaN | Inr s \<Rightarrow> s)"

definition scoreAtMost :: "heap \<Rightarrow> ref \<Rightarrow> ref \<Rightarrow> number \<Rightarrow> bool" where
  "scoreAtMost h a b t =
     (case calculateSimilarity (rowPost h a) (rowPost h b) of
        Inl e \<Rightarrow> False | Inr s \<Rightarrow> js_le s t)"

definition scoreAbove :: "heap \<Rightarrow> ref \<Rightarrow> ref \<Rightarrow> number \<Rightarrow> bool" where
  "scoreAbove h a b t =
     (case calculateSimilarity (rowPost h a) (rowPost h b) of
        Inl e \<Rightarrow> False | Inr s \<Rightarrow> js_gt s t)"

text \<open>
  The score of two rows as \<open>findRelatedPublishedPosts\<close> computes it, compared with a
  threshold, and the URL it emits for a row.
\<close>

definition linkScoreAbove :: "heap \<Rightarrow> ref \<Rightarrow> ref \<Rightarrow> number \<Rightarrow> bool" where
  "linkScoreAbove h a b t =
     (case calculateSimilarity (rawPost h a) (rawPost h b) of
        Inl e \<Rightarrow> False | Inr s \<Rightarrow> js_gt s t)"

definition urlOf :: "heap \<Rightarrow> ref \<Rightarrow> string" where
  "urlOf h r = orElse (published_url (h r)) []"

text \<open>
  The scan without exceptions, for the proofs: \<open>purePosts\<close> is the array \<open>similarPosts\<close>
  and \<open>pureStep\<close> is one turn of the loop; \<open>scanInv\<close> is the loop invariant.
\<close>

definition similarTo :: "heap \<Rightarrow> nat set \<Rightarrow> nat \<times> ref \<Rightarrow> nat \<times> ref \<Rightarrow> bool" where
  "similarTo h processed cur other =
     (fst cur \<noteq> fst other \<and> fst other \<notin> processed
      \<and> js_gt (scoreOf h (snd cur) (snd other)) num_0_3)"

definition mkRelated :: "heap \<Rightarrow> nat \<times> ref \<Rightarrow> nat \<times> ref \<Rightarrow> relatedPost" where
  "mkRelated h cur other =
     \<lparr>index = fst other, similarity = scoreOf h (snd cur) (snd other), row = snd other\<rparr>"

definition purePosts :: "heap \<Rightarrow> ref list \<Rightarrow> nat set \<Rightarrow> nat \<times> ref \<Rightarrow> relatedPost list" where
  "purePosts h rows processed cur =
     map (mkRelated h cur) (filter (similarTo h processed cur) (enumerate 0 rows))"

definition mkCluster :: "heap \<Rightarrow> nat \<Rightarrow> nat \<times> ref \<Rightarrow> relatedPost list \<Rightarrow> SemanticCluster" where
  "mkCluster h n cur posts =
     \<lparr>cluster_id = ''cluster-'' @ decimal n,
      mainPost = cur,
      relatedPosts = posts,
      theme = extractTheme (orElse (B (h (snd cur))) []) (orElse (C (h (snd cur))) []),
      internalLinkOpportunities =
        map (\<lambda>p. \<lparr>fromIndex = fst cur, toIndex = index p,
                   suggestedAnchor = generateAnchorText (orElse (B (h (row p))) []),
                   relevance = similarity p\<rparr>) posts\<rparr>"

definition pureStep ::
  "heap \<Rightarrow> ref list \<Rightarrow> SemanticCluster list \<times> nat set \<Rightarrow> nat \<times> ref
    \<Rightarrow> SemanticCluster list \<times> nat set" where
  "pureStep h rows st cur =
     (if fst cur \<in> snd st \<or> purePosts h rows (snd st) cur = [] then st
      else (fst st @ [mkCluster h (length (fst st)) cur (purePosts h rows (snd st) cur)],
            insert (fst cur) (snd st) \<union> set (map index (purePosts h rows (snd st) cur))))"

definition clusterOk :: "heap \<Rightarrow> ref list \<Rightarrow> SemanticCluster \<Rightarrow> bool" where
  "clusterOk h rows c \<longleftrightarrow>
     relatedPosts c \<noteq> [] \<and> fst (mainPost c) < length rows
     \<and> snd (mainPost c) = rows ! fst (mainPost c)
     \<and> sorted_wrt (<) (map index (relatedPosts c))
     \<and> (\<forall>p\<in>set (relatedPosts c).
           index p < length rows \<and> index p \<noteq> fst (mainPost c) \<and> row p = rows ! index p
           \<and> similarity p = scoreOf h (snd (mainPost c)) (row p)
           \<and> js_gt (similarity p) num_0_3)"

definition scanInv :: "heap \<Rightarrow> ref list \<Rightarrow> nat \<Rightarrow> SemanticCluster list \<times> nat set \<Rightarrow> bool" where
  "scanInv h rows n st \<longleftrightarrow>
     distinct (concat (map clusterIndices (fst st)))
     \<and> set (concat (map clusterIndices (fst st))) = snd st
     \<and> (\<forall>c\<in>set (fst st). clusterOk h rows c \<and> fst (mainPost c) < n)"

text \<open>Example inputs.\<close>

definition C3_heap :: heap where
  "C3_heap = heapOf [mkRow ''x'' ''a'' ''p'' None, mkRow ''y'' ''a'' ''p'' None,
                     mkRow ''w'' ''z'' ''q'' None]"

definition C4_heap :: heap where
  "C4_heap = heapOf [mkRow ''x'' ''a'' ''p'' None, mkRow ''y'' ''a,a'' ''q'' None]"

definition C5_heap :: heap where
  "C5_heap = heapOf [mkRow ''x'' ''a,b'' ''p'' None, mkRow ''y'' ''a,c'' ''p'' None,
                     mkRow ''z'' ''a,b'' ''p'' None]"

definition C5_cluster :: SemanticCluster where
  "C5_cluster =
     \<lparr>cluster_id = ''cluster-0'', mainPost = (0, 0),
      relatedPosts =
        [\<lparr>index = 1, similarity = Fin (2476979795053773 / 4503599627370496), row = 1\<rparr>,
         \<lparr>index = 2, similarity = Fin (3602879701896397 / 4503599627370496), row = 2\<rparr>],
      theme = ''General'',
      internalLinkOpportunities =
        [\<lparr>fromIndex = 0, toIndex = 1, suggestedAnchor = ''y'',
          relevance = Fin (2476979795053773 / 4503599627370496)\<rparr>,
         \<lparr>fromIndex = 0, toIndex = 2, suggestedAnchor = ''z'',
          relevance = Fin (3602879701896397 / 4503599627370496)\<rparr>]\<rparr>"

definition C7_heap :: heap where
  "C7_heap = heapOf [mkRow ''x'' ''a'' ''p'' None, mkRow ''y'' ''a,b'' ''p'' None,
                     mkRow ''z'' ''b'' ''p'' None]"

definition C7_clusters :: "SemanticCluster list" where
  "C7_clusters =
     [\<lparr>cluster_id = ''cluster-0'', mainPost = (0, 0),
       relatedPosts =
         [\<lparr>index = 1, similarity = Fin (2476979795053773 / 4503599627370496), row = 1\<rparr>],
       theme = ''General'',
       internalLinkOpportunities =
         [\<lparr>fromIndex = 0, toIndex = 1, suggestedAnchor = ''y'',
           relevance = Fin (2476979795053773 / 4503599627370496)\<rparr>]\<rparr>]"

definition C7_clusters_permuted :: "SemanticCluster list" where
  "C7_clusters_permuted =
     [\<lparr>cluster_id = ''cluster-0'', mainPost = (0, 1),
       relatedPosts =
         [\<lparr>index = 1, similarity = Fin (2476979795053773 / 4503599627370496), row = 0\<rparr>,
          \<lparr>index = 2, similarity = Fin (2476979795053773 / 4503599627370496), row = 2\<rparr>],
       theme = ''General'',
       internalLinkOpportunities =
         [\<lparr>fromIndex = 0, toIndex = 1, suggestedAnchor = ''x'',
           relevance = Fin (2476979795053773 / 4503599627370496)\<rparr>,
          \<lparr>fromIndex = 0, toIndex = 2, suggestedAnchor = ''z'',
           relevance = Fin (2476979795053773 / 4503599627370496)\<rparr>]\<rparr>]"

definition C8_heap :: heap where
  "C8_heap = heapOf [mkRow ''t'' ''k'' ''p'' (Some ''u0''), mkRow ''t'' ''k'' ''p'' None,
                     mkRow ''t'' ''k'' ''p'' (Some ''u2''), mkRow ''t'' ''k'' ''p'' (Some ''u3''),
                     mkRow ''t'' ''k'' ''p'' (Some ''u4''), mkRow ''t'' ''k'' ''p'' (Some ''u5'')]"

definition C8_entries :: "InternalLinkOpportunity list" where
  "C8_entries =
     [\<lparr>postIndex = 0, link_title = ''t'', url = ''u0'', suggestedLinks = [''u2'', ''u3'', ''u4'']\<rparr>,
      \<lparr>postIndex = 1, link_title = ''t'', url = ''u2'', suggestedLinks = [''u0'', ''u3'', ''u4'']\<rparr>,
      \<lparr>postIndex = 2, link_title = ''t'', url = ''u3'', suggestedLinks = [''u0'', ''u2'', ''u4'']\<rparr>,
      \<lparr>postIndex = 3, link_title = ''t'', url = ''u4'', suggestedLinks = [''u0'', ''u2'', ''u3'']\<rparr>,
      \<lparr>postIndex = 4, link_title = ''t'', url = ''u5'', suggestedLinks = [''u0'', ''u2'', ''u3'']\<rparr>]"

definition C8_dup_heap :: heap where
  "C8_dup_heap = heapOf [mkRow ''t'' ''k'' ''p'' (Some ''u''), mkRow ''t'' ''k'' ''p'' (Some ''u'')]"

definition C8_dup_entries :: "InternalLinkOpportunity list" where
  "C8_dup_entries =
     [\<lparr>postIndex = 0, link_title = ''t'', url = ''u'', suggestedLinks = [''u'']\<rparr>,
      \<lparr>postIndex = 1, link_title = ''t'', url = ''u'', suggestedLinks = [''u'']\<rparr>]"



definition C9_heap :: heap where
  "C9_heap = heapOf
     [mkRow ''Hudson Valley Wine Tasting Guide''
        ''wine tasting, hudson valley, vineyard tours'' ''Wine Education''
        (Some ''https://example.com/p1''),
      mkRow ''Wine Tasting Techniques for Beginners''
        ''wine tasting, beginner guide, techniques'' ''Wine Education'' None,
      mkRow ''Sustainable Wedding Venues in Hudson Valley''
        ''sustainable weddings, eco venue, hudson valley'' ''Events & Experiences'' None]"

definition C9_cluster :: SemanticCluster where
  "C9_cluster =
     \<lparr>cluster_id = ''cluster-0'', mainPost = (0, 0),
      relatedPosts =
        [\<lparr>index = 1, similarity = Fin (2822255766485511 / 4503599627370496), row = 1\<rparr>],
      theme = ''wine tasting'',
      internalLinkOpportunities =
        [\<lparr>fromIndex = 0, toIndex = 1,
          suggestedAnchor = ''Wine Tasting Techniques for Beginners'',
          relevance = Fin (2822255766485511 / 4503599627370496)\<rparr>]\<rparr>"

definition C9_result :: ContentAnalysisResult where
  "C9_result =
     \<lparr>totalPosts = 3, publishedPosts = 1,
      pillarDistribution = [(''Wine Education'', 2), (''Events & Experiences'', 1)],
      semanticClusters = [C9_cluster],
      linkOpportunities =
        [\<lparr>postIndex = 0, link_title = ''Hudson Valley Wine Tasting Guide'',
          url = ''https://example.com/p1'', suggestedLinks = []\<rparr>],
      contentGaps = []\<rparr>"

section \<open>Facts about rounding\<close>

lemma pow2_pos: "0 < pow2 e"
  by (simp add: pow2_def)

lemma roundTiesToEven_nonneg: "0 \<le> x \<Longrightarrow> 0 \<le> roundTiesToEven x"
proof -
  assume "0 \<le> x"
  then have "0 \<le> \<lfloor>x\<rfloor>" by simp
  then show ?thesis by (simp add: roundTiesToEven_def Let_def)
qed

lemma fl_nonneg: "0 \<le> x \<Longrightarrow> 0 \<le> fl x"
proof (cases "x = 0")
  case True
  then show ?thesis by (simp add: fl_def)
next
  case False
  assume "0 \<le> x"
  with False have pos: "0 < x" by simp
  define u where "u = pow2 (binexp \<bar>x\<bar> - 52)"
  have u: "0 < u" by (simp add: u_def pow2_pos)
  with pos have "0 \<le> \<bar>x\<bar> / u" by simp
  then have r: "0 \<le> roundTiesToEven (\<bar>x\<bar> / u)" by (rule roundTiesToEven_nonneg)
  have "fl x = of_int (roundTiesToEven (\<bar>x\<bar> / u)) * u"
    using pos by (simp add: fl_def Let_def u_def)
  with r u show ?thesis by simp
qed

lemma pow2_powi: "pow2 e = 2 powi e"
  by (simp add: pow2_def power_int_def field_simps)

lemma pow2_add: "pow2 (a + b) = pow2 a * pow2 b"
  by (simp add: pow2_powi power_int_add)

lemma pow2_nat: "0 \<le> e \<Longrightarrow> pow2 e = of_int (2 ^ nat e)"
  by (simp add: pow2_def)

lemma binexp_lower: "0 < x \<Longrightarrow> pow2 (binexp x) \<le> x"
proof (cases "1 \<le> x")
  case True
  define m where "m = \<lfloor>x\<rfloor>"
  from True have m: "0 < m" by (simp add: m_def)
  then have b1: "1 \<le> bitlen m" using bitlen_eq_zero_iff[of m] bitlen_nonneg[of m] by linarith
  from bitlen_bounds[OF m] have "(2::int) ^ nat (bitlen m - 1) \<le> m" by simp
  then have "(of_int (2 ^ nat (bitlen m - 1)) :: rat) \<le> of_int m" by (simp only: of_int_le_iff)
  also have "\<dots> \<le> x" by (simp add: m_def)
  finally show ?thesis using True b1 by (simp add: binexp_def m_def[symmetric] pow2_nat)
next
  case False
  assume pos: "0 < x"
  define c where "c = \<lceil>1 / x\<rceil>"
  from False pos have "1 < 1 / x" by simp
  then have c2: "2 \<le> c" unfolding c_def by linarith
  then have c1: "0 < c - 1" by simp
  define k where "k = bitlen (c - 1)"
  have k1: "1 \<le> k" using bitlen_eq_zero_iff[of "c - 1"] bitlen_nonneg[of "c - 1"] c1
    unfolding k_def by linarith
  from bitlen_bounds[OF c1] have "c - 1 < 2 ^ nat k" by (simp add: k_def)
  then have "c \<le> 2 ^ nat k" by simp
  then have "(of_int c :: rat) \<le> of_int (2 ^ nat k)" by (simp only: of_int_le_iff)
  moreover have "1 / x \<le> of_int c" by (simp add: c_def)
  ultimately have "1 / x \<le> of_int (2 ^ nat k)" by (rule order_trans[rotated])
  then have "1 / x \<le> 2 ^ nat k" by simp
  with pos have "1 / 2 ^ nat k \<le> x" by (simp add: field_simps)
  moreover have "pow2 (binexp x) = 1 / 2 ^ nat k"
    using False k1 by (simp add: binexp_def c_def[symmetric] k_def[symmetric] pow2_def)
  ultimately show ?thesis by simp
qed

lemma binexp_upper: "0 < x \<Longrightarrow> x < pow2 (binexp x + 1)"
proof (cases "1 \<le> x")
  case True
  define m where "m = \<lfloor>x\<rfloor>"
  from True have m: "0 < m" by (simp add: m_def)
  then have b1: "1 \<le> bitlen m" using bitlen_eq_zero_iff[of m] bitlen_nonneg[of m] by linarith
  from bitlen_bounds[OF m] have "m < 2 ^ nat (bitlen m)" by simp
  then have "m + 1 \<le> 2 ^ nat (bitlen m)" by simp
  then have "(of_int (m + 1) :: rat) \<le> of_int (2 ^ nat (bitlen m))" by (simp only: of_int_le_iff)
  moreover have "x < of_int (m + 1)" unfolding m_def by linarith
  ultimately have "x < of_int (2 ^ nat (bitlen m))" by (rule less_le_trans[rotated])
  then show ?thesis using True b1 by (simp add: binexp_def m_def[symmetric] pow2_nat)
next
  case False
  assume pos: "0 < x"
  define c where "c = \<lceil>1 / x\<rceil>"
  from False pos have "1 < 1 / x" by simp
  then have c2: "2 \<le> c" unfolding c_def by linarith
  then have c1: "0 < c - 1" by simp
  define k where "k = bitlen (c - 1)"
  have k1: "1 \<le> k" using bitlen_eq_zero_iff[of "c - 1"] bitlen_nonneg[of "c - 1"] c1
    unfolding k_def by linarith
  from bitlen_bounds[OF c1] have "2 ^ nat (k - 1) \<le> c - 1" by (simp add: k_def)
  then have "(of_int (2 ^ nat (k - 1)) :: rat) \<le> of_int (c - 1)" by (simp only: of_int_le_iff)
  moreover have "of_int (c - 1) < 1 / x" unfolding c_def by linarith
  ultimately have "of_int (2 ^ nat (k - 1)) < 1 / x" by (rule le_less_trans)
  then have "2 ^ nat (k - 1) < 1 / x" by simp
  with pos have "x < 1 / 2 ^ nat (k - 1)" by (simp add: field_simps)
  moreover have "pow2 (binexp x + 1) = 1 / 2 ^ nat (k - 1)"
  proof (cases "k = 1")
    case True
    then show ?thesis using False
      by (simp add: binexp_def c_def[symmetric] k_def[symmetric] pow2_def)
  next
    case kk: False
    with k1 have "- k + 1 < 0" by simp
    moreover have "nat (- (- k + 1)) = nat (k - 1)" by simp
    ultimately show ?thesis using False
      by (simp add: binexp_def c_def[symmetric] k_def[symmetric] pow2_def)
  qed
  ultimately show ?thesis by simp
qed

lemma roundTiesToEven_ge: "of_int n \<le> x \<Longrightarrow> n \<le> roundTiesToEven x"
proof -
  assume "of_int n \<le> x"
  then have "n \<le> \<lfloor>x\<rfloor>" by (simp add: le_floor_iff)
  then show ?thesis by (simp add: roundTiesToEven_def Let_def)
qed

lemma fl_pos: "0 < x \<Longrightarrow> 0 < fl x"
proof -
  assume pos: "0 < x"
  define u where "u = pow2 (binexp \<bar>x\<bar> - 52)"
  have u: "0 < u" by (simp add: u_def pow2_pos)
  have "pow2 (binexp x) = pow2 (binexp x - 52) * pow2 52"
    using pow2_add[of "binexp x - 52" 52] by simp
  then have "u * 2 ^ 52 \<le> x" using binexp_lower[OF pos] pos by (simp add: u_def pow2_def)
  with u have "of_int (2 ^ 52) \<le> \<bar>x\<bar> / u" using pos by (simp add: field_simps)
  then have "2 ^ 52 \<le> roundTiesToEven (\<bar>x\<bar> / u)" by (rule roundTiesToEven_ge)
  then have r: "0 < roundTiesToEven (\<bar>x\<bar> / u)" by simp
  have "fl x = of_int (roundTiesToEven (\<bar>x\<bar> / u)) * u"
    using pos by (simp add: fl_def Let_def u_def)
  with r u show ?thesis by simp
qed

lemma fl_eq_0_iff: "0 \<le> x \<Longrightarrow> fl x = 0 \<longleftrightarrow> x = 0"
  using fl_pos[of x] by (auto simp: fl_def)

text \<open>
  \<open>fl\<close> rounds to nearest: the result of rounding a positive \<open>x\<close> has a significand of 53
  bits at the exponent of \<open>x\<close>, and is within half a unit in the last place of \<open>x\<close>.
\<close>

lemma roundTiesToEven_error: "\<bar>of_int (roundTiesToEven x) - x\<bar> \<le> 1 / 2"
proof -
  define f where "f = \<lfloor>x\<rfloor>"
  define d where "d = x - of_int f"
  have d: "0 \<le> d" "d < 1" unfolding d_def f_def by linarith+
  have x: "x = of_int f + d" by (simp add: d_def)
  consider "d < 1 / 2" | "1 / 2 < d" | "d = 1 / 2" by linarith
  then show ?thesis
  proof cases
    case 1
    then have "roundTiesToEven x = f" by (simp add: roundTiesToEven_def Let_def f_def d_def)
    with 1 d x show ?thesis by simp
  next
    case 2
    then have "roundTiesToEven x = f + 1"
      by (simp add: roundTiesToEven_def Let_def f_def d_def)
    with 2 d x show ?thesis by simp
  next
    case 3
    then have "roundTiesToEven x = f \<or> roundTiesToEven x = f + 1"
      by (simp add: roundTiesToEven_def Let_def f_def d_def)
    with 3 x show ?thesis by auto
  qed
qed

lemma roundTiesToEven_le: "x \<le> of_int n \<Longrightarrow> roundTiesToEven x \<le> n"
proof -
  assume a: "x \<le> of_int n"
  show ?thesis
  proof (cases "x = of_int n")
    case True
    then show ?thesis by (simp add: roundTiesToEven_def Let_def)
  next
    case False
    with a have "x < of_int n" by simp
    then have "\<lfloor>x\<rfloor> < n" by (simp add: floor_less_iff)
    then show ?thesis by (simp add: roundTiesToEven_def Let_def)
  qed
qed

lemma fl_nearest:
  assumes "0 < x"
  shows "\<exists>m. fl x = of_int m * pow2 (binexp x - 52) \<and> 2 ^ 52 \<le> m \<and> m \<le> 2 ^ 53
             \<and> \<bar>fl x - x\<bar> \<le> pow2 (binexp x - 52) / 2"
proof -
  define u where "u = pow2 (binexp x - 52)"
  define m where "m = roundTiesToEven (x / u)"
  have u: "0 < u" by (simp add: u_def pow2_pos)
  have fl: "fl x = of_int m * u" using assms by (simp add: fl_def Let_def u_def m_def)
  have p: "pow2 52 = 2 ^ 52" "pow2 53 = 2 ^ 53" by (simp_all add: pow2_def)
  have "pow2 (binexp x) = u * 2 ^ 52"
    using pow2_add[of "binexp x - 52" 52] p by (simp add: u_def)
  moreover have "pow2 (binexp x + 1) = u * 2 ^ 53"
    using pow2_add[of "binexp x - 52" 53] p by (simp add: u_def add.commute)
  ultimately have lo: "u * 2 ^ 52 \<le> x" and hi: "x < u * 2 ^ 53"
    using binexp_lower[OF assms] binexp_upper[OF assms] by simp_all
  from lo u have "of_int (2 ^ 52) \<le> x / u" by (simp add: field_simps)
  then have m1: "2 ^ 52 \<le> m" unfolding m_def by (rule roundTiesToEven_ge)
  from hi u have "x / u \<le> of_int (2 ^ 53)" by (simp add: field_simps)
  then have m2: "m \<le> 2 ^ 53" unfolding m_def by (rule roundTiesToEven_le)
  have "\<bar>of_int m - x / u\<bar> \<le> 1 / 2" unfolding m_def by (rule roundTiesToEven_error)
  then have "\<bar>of_int m - x / u\<bar> * u \<le> 1 / 2 * u" using u by (intro mult_right_mono) simp_all
  moreover have "\<bar>of_int m - x / u\<bar> * u = \<bar>of_int m * u - x\<bar>"
  proof -
    have "\<bar>of_int m - x / u\<bar> * u = \<bar>(of_int m - x / u) * u\<bar>"
      using u by (simp add: abs_mult)
    also have "(of_int m - x / u) * u = of_int m * u - x"
      using u by (simp add: field_simps)
    finally show ?thesis .
  qed
  ultimately have "\<bar>fl x - x\<bar> \<le> u / 2" by (simp add: fl)
  with fl m1 m2 show ?thesis unfolding u_def by blast
qed

text \<open>The literals of the source as doubles, and the double nearest to one third.\<close>

lemma fl_known_values:
  "fl (3 / 10) = 5404319552844595 / 18014398509481984"
  "fl (4 / 10) = 3602879701896397 / 9007199254740992"
  "fl (2 / 10) = 3602879701896397 / 18014398509481984"
  "fl (1 / 3) = 6004799503160661 / 18014398509481984"
  "fl (1 / 2) = 1 / 2"
  "fl 1 = 1"
  by code_simp+

section \<open>Facts about the similarity score\<close>

lemma split_not_Nil: "split sep s \<noteq> []"
  by (induction s) (auto split: list.splits)

lemma keywordTokens_not_Nil: "keywordTokens ks \<noteq> []"
  by (simp add: keywordTokens_def split_not_Nil)

text \<open>Tokens are lower-cased and trimmed; empty tokens are kept.\<close>

lemma keywordTokens_example:
  "keywordTokens '' Wine Tasting ,HUDSON valley,,x '' = [''wine tasting'', ''hudson valley'', [], ''x'']"
  by code_simp

lemma js_div_Fin: "0 < b \<Longrightarrow> \<exists>q. js_div a b = Fin q \<and> 0 \<le> q"
  by (simp add: js_div_def fl_nonneg)

lemma calculateTextSimilarity_Fin: "\<exists>q. calculateTextSimilarity t1 t2 = Fin q \<and> 0 \<le> q"
  unfolding calculateTextSimilarity_def Let_def
  by (rule js_div_Fin) (simp add: split_not_Nil less_max_iff_disj)

lemma keywordSimilarity_Fin: "\<exists>q. keywordSimilarity k1 k2 = Fin q \<and> 0 \<le> q"
  unfolding keywordSimilarity_def Let_def
  by (rule js_div_Fin) (simp add: keywordTokens_not_Nil less_max_iff_disj)

lemma calculateSimilarity_Some:
  "\<exists>r. calculateSimilarity \<lparr>title = Some t1, keywords' = Some k1, pillar = p1\<rparr>
           \<lparr>title = Some t2, keywords' = Some k2, pillar = p2\<rparr> = Inr (Fin r) \<and> 0 \<le> r \<and> r \<le> 1"
proof -
  obtain a where a: "keywordSimilarity k1 k2 = Fin a" "0 \<le> a"
    using keywordSimilarity_Fin by blast
  obtain b where b: "calculateTextSimilarity t1 t2 = Fin b" "0 \<le> b"
    using calculateTextSimilarity_Fin by blast
  have c3: "0 \<le> fl (3 / 10)" and c4: "0 \<le> fl (4 / 10)" by (simp_all add: fl_nonneg)
  define pm where "pm = (if p1 = p2 then fl (3 / 10) else 0)"
  have pm: "0 \<le> pm" using c3 by (simp add: pm_def)
  have ka: "0 \<le> fl (a * (1 / 2))" using a by (intro fl_nonneg) simp
  have tb: "0 \<le> fl (b * fl (4 / 10))" using b c4 by (intro fl_nonneg) simp
  have s1: "0 \<le> fl (fl (a * (1 / 2)) + pm)" using ka pm by (intro fl_nonneg) simp
  have s2: "0 \<le> fl (fl (fl (a * (1 / 2)) + pm) + fl (b * fl (4 / 10)))"
    using s1 tb by (intro fl_nonneg) simp
  have "calculateSimilarity \<lparr>title = Some t1, keywords' = Some k1, pillar = p1\<rparr>
           \<lparr>title = Some t2, keywords' = Some k2, pillar = p2\<rparr>
        = Inr (Fin (min (fl (fl (fl (a * (1 / 2)) + pm) + fl (b * fl (4 / 10)))) 1))"
    using a b
    by (simp add: calculateSimilarity_def Let_def num_0_3_def num_0_4_def num_0_5_def pm_def)
  with s2 show ?thesis by simp
qed

lemma js_div_eq_0_iff: "0 < b \<Longrightarrow> js_div a b = Fin 0 \<longleftrightarrow> a = 0"
proof -
  assume b: "0 < b"
  then have "0 \<le> (of_nat a / of_nat b :: rat)" by simp
  from fl_eq_0_iff[OF this] b show ?thesis by (simp add: js_div_def)
qed

lemma js_times_pos_eq_0_iff:
  assumes "x = Fin q" "0 \<le> q" "0 < c"
  shows "js_times x (Fin c) = Fin 0 \<longleftrightarrow> x = Fin 0"
proof -
  from assms have "0 \<le> q * c" by simp
  from fl_eq_0_iff[OF this] assms show ?thesis by simp
qed

lemma length_filter_eq_0_iff: "length (filter P xs) = 0 \<longleftrightarrow> (\<forall>x\<in>set xs. \<not> P x)"
  by (simp add: filter_empty_conv)

lemma keyword_term_eq_0_iff:
  "js_times (keywordSimilarity k1 k2) num_0_5 = Fin 0 \<longleftrightarrow>
     (\<forall>k\<in>set (keywordTokens k1). k \<notin> set (keywordTokens k2))"
proof -
  obtain q where q: "keywordSimilarity k1 k2 = Fin q" "0 \<le> q"
    using keywordSimilarity_Fin by blast
  have "js_times (keywordSimilarity k1 k2) num_0_5 = Fin 0 \<longleftrightarrow> keywordSimilarity k1 k2 = Fin 0"
    unfolding num_0_5_def by (rule js_times_pos_eq_0_iff[OF q]) simp
  also have "\<dots> \<longleftrightarrow> length (filter (\<lambda>k. k \<in> set (keywordTokens k2)) (keywordTokens k1)) = 0"
    unfolding keywordSimilarity_def Let_def
    by (rule js_div_eq_0_iff) (simp add: keywordTokens_not_Nil less_max_iff_disj)
  finally show ?thesis by (simp only: length_filter_eq_0_iff)
qed

lemma title_term_eq_0_iff:
  "js_times (calculateTextSimilarity t1 t2) num_0_4 = Fin 0 \<longleftrightarrow>
     (\<forall>w\<in>set (split CHR '' '' (toLowerCase t1)). w \<notin> set (split CHR '' '' (toLowerCase t2)))"
proof -
  obtain q where q: "calculateTextSimilarity t1 t2 = Fin q" "0 \<le> q"
    using calculateTextSimilarity_Fin by blast
  have c: "0 < fl (4 / 10)" by (rule fl_pos) simp
  have "js_times (calculateTextSimilarity t1 t2) num_0_4 = Fin 0
          \<longleftrightarrow> calculateTextSimilarity t1 t2 = Fin 0"
    unfolding num_0_4_def by (rule js_times_pos_eq_0_iff[OF q c])
  also have "\<dots> \<longleftrightarrow> length (filter (\<lambda>w. w \<in> set (split CHR '' '' (toLowerCase t2)))
                              (split CHR '' '' (toLowerCase t1))) = 0"
    unfolding calculateTextSimilarity_def Let_def
    by (rule js_div_eq_0_iff) (simp add: split_not_Nil less_max_iff_disj)
  finally show ?thesis by (simp only: length_filter_eq_0_iff)
qed

section \<open>The similarity score: range, denominators, asymmetry\<close>

text \<open>
  C1. For any two posts whose title and keywords are strings, the empty string included,
  \<open>calculateSimilarity\<close> returns normally, and its result is a finite number \<open>r\<close> (neither
  \<open>NaN\<close> nor \<open>Infinity\<close>) with \<open>0 \<le> r \<le> 1\<close>; both divisions have a positive denominator.
\<close>

theorem C1_calculateSimilarity_range:
  "\<exists>r. calculateSimilarity \<lparr>title = Some t1, keywords' = Some k1, pillar = p1\<rparr>
          \<lparr>title = Some t2, keywords' = Some k2, pillar = p2\<rparr> = Inr (Fin r)
       \<and> 0 \<le> r \<and> r \<le> 1
       \<and> 0 < max (length (keywordTokens k1)) (length (keywordTokens k2))
       \<and> 0 < max (length (split CHR '' '' (toLowerCase t1)))
                 (length (split CHR '' '' (toLowerCase t2)))"
  using calculateSimilarity_Some[of t1 k1 p1 t2 k2 p2]
  by (simp add: keywordTokens_not_Nil split_not_Nil less_max_iff_disj)

theorem C1_witness:
  "\<exists>r. calculateSimilarity \<lparr>title = Some [], keywords' = Some [], pillar = None\<rparr>
          \<lparr>title = Some [], keywords' = Some [], pillar = Some []\<rparr> = Inr (Fin r)
       \<and> 0 \<le> r \<and> r \<le> 1"
  using C1_calculateSimilarity_range[of "[]" "[]" None "[]" "[]" "Some []"] by blast

text \<open>
  Splitting the empty string yields the one empty token, so a token list or a word list
  is not empty even for a row without keywords or title; two such rows share the empty
  token, and the ratios are \<open>1 / 1\<close>.
\<close>

lemma empty_strings_subterms:
  "keywordTokens [] = [[]]
   \<and> js_times (keywordSimilarity [] []) num_0_5 = Fin (1 / 2)
   \<and> split CHR '' '' (toLowerCase []) = [[]]
   \<and> js_times (calculateTextSimilarity [] []) num_0_4
        = Fin (3602879701896397 / 9007199254740992)"
  by code_simp

text \<open>
  C6. The score is not symmetric: for a row with keywords \<open>a\<close> and a row with the
  duplicated token \<open>a,a\<close> (different titles and pillars) the score is 0.25 in one
  argument order and 0.5 in the other.
\<close>

theorem C6_asymmetric:
  "\<exists>a b. keywords' a = Some ''a'' \<and> keywords' b = Some ''a,a''
       \<and> calculateSimilarity a b = Inr (Fin (1 / 4))
       \<and> calculateSimilarity b a = Inr (Fin (1 / 2))
       \<and> calculateSimilarity a b \<noteq> calculateSimilarity b a"
proof -
  let ?a = "\<lparr>title = Some ''x'', keywords' = Some ''a'', pillar = Some ''p''\<rparr>"
  let ?b = "\<lparr>title = Some ''y'', keywords' = Some ''a,a'', pillar = Some ''q''\<rparr>"
  have ab: "calculateSimilarity ?a ?b = Inr (Fin (1 / 4))" by code_simp
  have ba: "calculateSimilarity ?b ?a = Inr (Fin (1 / 2))" by code_simp
  have ne: "calculateSimilarity ?a ?b \<noteq> calculateSimilarity ?b ?a" unfolding ab ba by simp
  have ka: "keywords' ?a = Some ''a''" and kb: "keywords' ?b = Some ''a,a''" by simp_all
  from ka kb ab ba ne show ?thesis by blast
qed

section \<open>Facts about the clustering scan\<close>

lemma rowScore_Inr:
  "calculateSimilarity (rowPost h a) (rowPost h b) = Inr (scoreOf h a b)"
  using calculateSimilarity_Some
    [of "orElse (B (h a)) []" "orElse (C (h a)) []" "Some (orElse (D (h a)) [])"
        "orElse (B (h b)) []" "orElse (C (h b)) []" "Some (orElse (D (h b)) [])"]
  by (auto simp: scoreOf_def rowPost_def)

lemma scoreOf_Fin: "\<exists>r. scoreOf h a b = Fin r \<and> 0 \<le> r \<and> r \<le> 1"
  using calculateSimilarity_Some
    [of "orElse (B (h a)) []" "orElse (C (h a)) []" "Some (orElse (D (h a)) [])"
        "orElse (B (h b)) []" "orElse (C (h b)) []" "Some (orElse (D (h b)) [])"]
  by (auto simp: scoreOf_def rowPost_def)

lemma mapE_Inr: "(\<And>x. x \<in> set xs \<Longrightarrow> f x = Inr (g x)) \<Longrightarrow> mapE f xs = Inr (map g xs)"
  by (induction xs) simp_all

lemma filterNotNull_map:
  "filterNotNull (map (\<lambda>x. if Q x then Some (k x) else None) xs) = map k (filter Q xs)"
  by (induction xs) (simp_all add: filterNotNull_def)

lemma similarPost_pure:
  "similarPost h processed cur other =
     Inr (if similarTo h processed cur other then Some (mkRelated h cur other) else None)"
  by (cases other) (auto simp: similarPost_def similarTo_def mkRelated_def rowScore_Inr)

lemma similarPosts_pure: "similarPosts h rows processed cur = Inr (purePosts h rows processed cur)"
proof -
  have "mapE (similarPost h processed cur) (enumerate 0 rows)
        = Inr (map (\<lambda>x. if similarTo h processed cur x then Some (mkRelated h cur x) else None)
                 (enumerate 0 rows))"
    by (rule mapE_Inr) (rule similarPost_pure)
  then show ?thesis
    by (simp add: similarPosts_def purePosts_def filterNotNull_map)
qed

lemma purePosts_index: 
  "map index (purePosts h rows processed cur)
     = map fst (filter (similarTo h processed cur) (enumerate 0 rows))"
  by (simp add: purePosts_def mkRelated_def comp_def)

lemma purePosts_member:
  assumes "p \<in> set (purePosts h rows processed cur)"
  shows "index p < length rows \<and> index p \<noteq> fst cur \<and> index p \<notin> processed
         \<and> row p = rows ! index p
         \<and> similarity p = scoreOf h (snd cur) (row p)
         \<and> js_gt (similarity p) num_0_3"
proof -
  from assms obtain x where x: "x \<in> set (enumerate 0 rows)" "similarTo h processed cur x"
    "p = mkRelated h cur x"
    by (auto simp: purePosts_def)
  obtain j r where jr: "x = (j, r)" by (cases x)
  with x(1) have "j < length rows" "r = rows ! j" by (auto simp: in_set_enumerate_eq)
  with x jr show ?thesis by (auto simp: similarTo_def mkRelated_def)
qed

lemma purePosts_complete:
  assumes "j < length rows" "j \<noteq> fst cur" "j \<notin> processed"
    "js_gt (scoreOf h (snd cur) (rows ! j)) num_0_3"
  shows "j \<in> set (map index (purePosts h rows processed cur))"
proof -
  from assms(1) have "(j, rows ! j) \<in> set (enumerate 0 rows)"
    by (simp add: in_set_enumerate_eq)
  moreover have "similarTo h processed cur (j, rows ! j)"
    using assms by (simp add: similarTo_def)
  ultimately have "(j, rows ! j) \<in> set (filter (similarTo h processed cur) (enumerate 0 rows))"
    by simp
  then have "fst (j, rows ! j) \<in> fst ` set (filter (similarTo h processed cur) (enumerate 0 rows))"
    by (rule imageI)
  then show ?thesis by (simp add: purePosts_index)
qed

lemma sorted_wrt_map_fst_filter_enumerate:
  "sorted_wrt (<) (map fst (filter Q (enumerate n xs)))"
proof -
  have "sorted_wrt (<) (map fst (enumerate n xs))"
    by simp
  then have "sorted_wrt (\<lambda>x y. fst x < fst y) (enumerate n xs)"
    by (simp only: sorted_wrt_map)
  then have "sorted_wrt (\<lambda>x y. fst x < fst y) (filter Q (enumerate n xs))"
    by (rule sorted_wrt_filter)
  then show ?thesis by (simp add: sorted_wrt_map)
qed

lemma purePosts_ascending:
  "sorted_wrt (<) (map index (purePosts h rows processed cur))"
  by (simp add: purePosts_index sorted_wrt_map_fst_filter_enumerate)

lemma purePosts_distinct: "distinct (map index (purePosts h rows processed cur))"
  using purePosts_ascending[of h rows processed cur] strict_sorted_iff by blast

lemma visitRow_pure: "visitRow h rows st cur = Inr (pureStep h rows st cur)"
  by (cases st) (simp add: visitRow_def pureStep_def mkCluster_def similarPosts_pure)

lemma forEachE_pure:
  "(\<And>s x. f s x = Inr (g s x)) \<Longrightarrow> forEachE f xs s = Inr (foldl g s xs)"
  by (induction xs arbitrary: s) simp_all

lemma forEachE_visitRow: "forEachE (visitRow h rows) xs st = Inr (foldl (pureStep h rows) st xs)"
  by (rule forEachE_pure) (rule visitRow_pure)

lemma identifySemanticClusters_pure:
  "identifySemanticClusters h rows
     = Inr (fst (foldl (pureStep h rows) ([], {}) (enumerate 0 rows)))"
  by (simp add: identifySemanticClusters_def forEachE_visitRow split: prod.split)

lemma stateAtTurn_pure:
  "stateAtTurn h rows i = Inr (foldl (pureStep h rows) ([], {}) (take i (enumerate 0 rows)))"
  by (simp add: stateAtTurn_def forEachE_visitRow)

lemma mkCluster_sel [simp]:
  "mainPost (mkCluster h n cur posts) = cur"
  "relatedPosts (mkCluster h n cur posts) = posts"
  by (simp_all add: mkCluster_def)

lemma clusterOk_mkCluster:
  assumes "n < length rows" "purePosts h rows P (n, rows ! n) \<noteq> []"
  shows "clusterOk h rows (mkCluster h m (n, rows ! n) (purePosts h rows P (n, rows ! n)))"
  using assms purePosts_member[of _ h rows P "(n, rows ! n)"]
    purePosts_ascending[of h rows P "(n, rows ! n)"]
  by (fastforce simp: clusterOk_def)

lemma scanInv_step:
  assumes inv: "scanInv h rows n st" and n: "n < length rows"
  shows "scanInv h rows (Suc n) (pureStep h rows st (n, rows ! n))"
proof (cases "n \<in> snd st \<or> purePosts h rows (snd st) (n, rows ! n) = []")
  case True
  then have "pureStep h rows st (n, rows ! n) = st" by (simp add: pureStep_def)
  with inv show ?thesis by (auto simp: scanInv_def)
next
  case False
  define posts where "posts = purePosts h rows (snd st) (n, rows ! n)"
  define c where "c = mkCluster h (length (fst st)) (n, rows ! n) posts"
  from False have st': "pureStep h rows st (n, rows ! n)
      = (fst st @ [c], insert n (snd st) \<union> set (map index posts))"
    by (simp add: pureStep_def c_def posts_def)
  have ci: "clusterIndices c = n # map index posts" by (simp add: clusterIndices_def c_def)
  have fresh: "\<forall>p\<in>set posts. index p \<noteq> n \<and> index p \<notin> snd st"
    using purePosts_member[of _ h rows "snd st" "(n, rows ! n)"] by (simp add: posts_def)
  have d: "distinct (map index posts)" by (simp add: posts_def purePosts_distinct)
  have ok: "clusterOk h rows c"
    unfolding c_def posts_def using n False by (intro clusterOk_mkCluster) simp_all
  from inv have i1: "distinct (concat (map clusterIndices (fst st)))"
    and i2: "set (concat (map clusterIndices (fst st))) = snd st"
    and i3: "\<forall>c\<in>set (fst st). clusterOk h rows c \<and> fst (mainPost c) < n"
    by (simp_all add: scanInv_def)
  have "distinct (concat (map clusterIndices (fst st @ [c])))"
    using i1 i2 d fresh False by (auto simp: ci)
  moreover have "set (concat (map clusterIndices (fst st @ [c])))
      = insert n (snd st) \<union> set (map index posts)"
    using i2 by (auto simp: ci)
  moreover have "\<forall>c'\<in>set (fst st @ [c]). clusterOk h rows c' \<and> fst (mainPost c') < Suc n"
    using i3 ok by (auto simp: c_def less_Suc_eq)
  ultimately show ?thesis by (simp add: st' scanInv_def)
qed

lemma scanInv_init: "scanInv h rows 0 ([], {})"
  by (simp add: scanInv_def)

lemma take_Suc_enumerate:
  "i < length rows \<Longrightarrow>
     take (Suc i) (enumerate 0 rows) = take i (enumerate 0 rows) @ [(i, rows ! i)]"
  by (simp add: take_Suc_conv_app_nth nth_enumerate_eq)

lemma scanInv_take:
  "i \<le> length rows \<Longrightarrow>
     scanInv h rows i (foldl (pureStep h rows) ([], {}) (take i (enumerate 0 rows)))"
proof (induction i)
  case 0
  show ?case by (simp add: scanInv_init)
next
  case (Suc i)
  then have i: "i < length rows" by simp
  with Suc have "scanInv h rows i (foldl (pureStep h rows) ([], {}) (take i (enumerate 0 rows)))"
    by simp
  then have "scanInv h rows (Suc i)
      (pureStep h rows (foldl (pureStep h rows) ([], {}) (take i (enumerate 0 rows))) (i, rows ! i))"
    using i by (rule scanInv_step)
  then show ?case by (simp add: take_Suc_enumerate[OF i])
qed

lemma scanInv_final:
  "scanInv h rows (length rows) (foldl (pureStep h rows) ([], {}) (enumerate 0 rows))"
  using scanInv_take[of "length rows" rows h] by simp

lemma pureStep_extends:
  "\<exists>new. fst (pureStep h rows st cur) = fst st @ new \<and> (\<forall>c\<in>set new. mainPost c = cur)"
  by (simp add: pureStep_def)

lemma foldl_pureStep_extends:
  "\<exists>new. fst (foldl (pureStep h rows) st xs) = fst st @ new
         \<and> (\<forall>c\<in>set new. mainPost c \<in> set xs)"
proof (induction xs arbitrary: st)
  case Nil
  show ?case by simp
next
  case (Cons x xs)
  obtain new1 where n1: "fst (pureStep h rows st x) = fst st @ new1"
    "\<forall>c\<in>set new1. mainPost c = x"
    using pureStep_extends by blast
  obtain new2 where n2: "fst (foldl (pureStep h rows) (pureStep h rows st x) xs)
        = fst (pureStep h rows st x) @ new2" "\<forall>c\<in>set new2. mainPost c \<in> set xs"
    using Cons.IH by blast
  have "fst (foldl (pureStep h rows) st (x # xs)) = fst st @ (new1 @ new2)"
    using n1 n2 by simp
  moreover have "\<forall>c\<in>set (new1 @ new2). mainPost c \<in> set (x # xs)"
    using n1 n2 by auto
  ultimately show ?case by blast
qed

lemma C4_example_clusters: "identifySemanticClusters C4_heap [0, 1] =
   Inr [\<lparr>cluster_id = ''cluster-0'', mainPost = (1, 1),
         relatedPosts = [\<lparr>index = 0, similarity = Fin (1 / 2), row = 0\<rparr>],
         theme = ''General'',
         internalLinkOpportunities =
           [\<lparr>fromIndex = 1, toIndex = 0, suggestedAnchor = ''x'',
               relevance = Fin (1 / 2)\<rparr>]\<rparr>]"
  by code_simp

lemma C4_example_state: "stateAtTurn C4_heap [0, 1] 0 = Inr ([], {})"
  by code_simp

lemma C4_example_similarPosts: "similarPosts C4_heap [0, 1] {} (0, 0) = Inr []"
  by code_simp

lemma js_gt_not_le: "js_gt s t \<Longrightarrow> \<not> js_le s t"
  by (cases s; cases t) simp_all

lemma scoreAbove_scoreOf: "scoreAbove h a b t = js_gt (scoreOf h a b) t"
  by (simp add: scoreAbove_def rowScore_Inr)

lemma scoreAtMost_scoreOf: "scoreAtMost h a b t = js_le (scoreOf h a b) t"
  by (simp add: scoreAtMost_def rowScore_Inr)

lemma in_clusterIndices:
  "k \<in> set (clusterIndices c) \<longleftrightarrow> k = fst (mainPost c) \<or> k \<in> set (map index (relatedPosts c))"
  by (simp add: clusterIndices_def)

lemma clusterOk_anchor_has_neighbour:
  assumes "clusterOk h rows c"
  shows "\<exists>j<length rows. j \<noteq> fst (mainPost c)
           \<and> scoreAbove h (rows ! fst (mainPost c)) (rows ! j) num_0_3"
proof -
  from assms obtain p where p: "p \<in> set (relatedPosts c)"
    by (cases "relatedPosts c") (auto simp: clusterOk_def)
  with assms have "index p < length rows" "index p \<noteq> fst (mainPost c)"
    "js_gt (scoreOf h (rows ! fst (mainPost c)) (rows ! index p)) num_0_3"
    by (auto simp: clusterOk_def)
  then show ?thesis by (auto simp: scoreAbove_scoreOf)
qed

lemma clusterOk_member:
  assumes "clusterOk h rows c" "k \<in> set (map index (relatedPosts c))"
  shows "k < length rows \<and> k \<noteq> fst (mainPost c)
         \<and> scoreAbove h (rows ! fst (mainPost c)) (rows ! k) num_0_3"
proof -
  from assms(2) obtain p where p: "p \<in> set (relatedPosts c)" "index p = k" by auto
  with assms(1) show ?thesis by (auto simp: clusterOk_def scoreAbove_scoreOf)
qed

lemma isolated_row_unclustered:
  assumes inv: "scanInv h rows n st"
    and k: "k < length rows"
    and iso: "\<forall>j<length rows. j \<noteq> k \<longrightarrow>
                scoreAtMost h (rows ! k) (rows ! j) num_0_3
                \<and> scoreAtMost h (rows ! j) (rows ! k) num_0_3"
  shows "k \<notin> set (concat (map clusterIndices (fst st)))"
proof
  assume "k \<in> set (concat (map clusterIndices (fst st)))"
  then obtain c where c: "c \<in> set (fst st)" "k \<in> set (clusterIndices c)" by auto
  with inv have ok: "clusterOk h rows c" by (simp add: scanInv_def)
  from c(2) show False unfolding in_clusterIndices
  proof
    assume a: "k = fst (mainPost c)"
    from clusterOk_anchor_has_neighbour[OF ok] obtain j where
      "j < length rows" "j \<noteq> k" "scoreAbove h (rows ! k) (rows ! j) num_0_3"
      using a by auto
    with iso show False
      by (auto simp: scoreAbove_scoreOf scoreAtMost_scoreOf dest: js_gt_not_le)
  next
    assume "k \<in> set (map index (relatedPosts c))"
    from clusterOk_member[OF ok this] ok
    have "fst (mainPost c) < length rows" "fst (mainPost c) \<noteq> k"
      "scoreAbove h (rows ! fst (mainPost c)) (rows ! k) num_0_3"
      by (auto simp: clusterOk_def)
    with iso show False
      by (auto simp: scoreAbove_scoreOf scoreAtMost_scoreOf dest: js_gt_not_le)
  qed
qed

section \<open>Clustering: disjointness, unclustered rows, member order, input order\<close>

text \<open>
  C3. \<open>identifySemanticClusters\<close> returns normally, no row index occurs twice among the
  anchors and members of the returned clusters, and a row whose score with every other
  row is at most 0.3 in both argument orders occurs in no cluster.
\<close>

theorem C3_clusters_disjoint:
  "\<exists>cs. identifySemanticClusters h rows = Inr cs
     \<and> distinct (concat (map clusterIndices cs))
     \<and> (k < length rows
          \<and> (\<forall>j<length rows. j \<noteq> k \<longrightarrow>
                 scoreAtMost h (rows ! k) (rows ! j) num_0_3
                 \<and> scoreAtMost h (rows ! j) (rows ! k) num_0_3)
        \<longrightarrow> k \<notin> set (concat (map clusterIndices cs)))"
proof -
  let ?st = "foldl (pureStep h rows) ([], {}) (enumerate 0 rows)"
  have inv: "scanInv h rows (length rows) ?st" by (rule scanInv_final)
  then have "distinct (concat (map clusterIndices (fst ?st)))" by (simp add: scanInv_def)
  moreover have "k < length rows
          \<and> (\<forall>j<length rows. j \<noteq> k \<longrightarrow>
                 scoreAtMost h (rows ! k) (rows ! j) num_0_3
                 \<and> scoreAtMost h (rows ! j) (rows ! k) num_0_3)
        \<longrightarrow> k \<notin> set (concat (map clusterIndices (fst ?st)))"
    using isolated_row_unclustered[OF inv] by blast
  ultimately show ?thesis by (simp add: identifySemanticClusters_pure)
qed

lemma C3_example_isolated:
  "scoreAtMost C3_heap 2 0 num_0_3 \<and> scoreAtMost C3_heap 0 2 num_0_3
   \<and> scoreAtMost C3_heap 2 1 num_0_3 \<and> scoreAtMost C3_heap 1 2 num_0_3"
  by code_simp

theorem C3_witness:
  "\<exists>cs. identifySemanticClusters C3_heap [0, 1, 2] = Inr cs
     \<and> distinct (concat (map clusterIndices cs))
     \<and> 2 \<notin> set (concat (map clusterIndices cs))"
proof -
  have "\<forall>j<length [0, 1, 2::nat]. j \<noteq> 2 \<longrightarrow>
          scoreAtMost C3_heap ([0, 1, 2] ! 2) ([0, 1, 2] ! j) num_0_3
          \<and> scoreAtMost C3_heap ([0, 1, 2] ! j) ([0, 1, 2] ! 2) num_0_3"
  proof (intro allI impI)
    fix j :: nat assume "j < length [0, 1, 2::nat]" "j \<noteq> 2"
    then have "j = 0 \<or> j = 1" by auto
    then show "scoreAtMost C3_heap ([0, 1, 2] ! 2) ([0, 1, 2] ! j) num_0_3
          \<and> scoreAtMost C3_heap ([0, 1, 2] ! j) ([0, 1, 2] ! 2) num_0_3"
      using C3_example_isolated by auto
  qed
  with C3_clusters_disjoint[of C3_heap "[0, 1, 2]" 2] show ?thesis by simp
qed

lemma set_drop_enumerate:
  "x \<in> set (drop n (enumerate 0 rows)) \<Longrightarrow> n \<le> fst x"
proof -
  assume "x \<in> set (drop n (enumerate 0 rows))"
  then obtain i where "i < length (drop n (enumerate 0 rows))"
    "drop n (enumerate 0 rows) ! i = x"
    by (auto simp: in_set_conv_nth)
  then show ?thesis by (auto simp: nth_enumerate_eq)
qed

text \<open>
  C4, as amended. If row \<open>i\<close> is unclaimed at its turn and the array of similar unclaimed
  rows built at its turn is empty, then row \<open>i\<close> is the anchor of no cluster; it is a member
  of a cluster only if that cluster is anchored at a later row \<open>k > i\<close> whose score against
  row \<open>i\<close>, with the anchor as first argument, exceeds 0.3.
\<close>

theorem C4_unanchored_row:
  assumes "i < length rows"
    and "stateAtTurn h rows i = Inr (cs_i, P_i)"
    and "i \<notin> P_i"
    and "similarPosts h rows P_i (i, rows ! i) = Inr []"
  shows "\<exists>cs. identifySemanticClusters h rows = Inr cs
           \<and> (\<forall>c\<in>set cs. fst (mainPost c) \<noteq> i)
           \<and> (\<forall>c\<in>set cs. i \<in> set (map index (relatedPosts c)) \<longrightarrow>
                 i < fst (mainPost c)
                 \<and> scoreAbove h (snd (mainPost c)) (rows ! i) num_0_3)"
proof -
  let ?E = "enumerate 0 rows"
  let ?f = "pureStep h rows"
  from assms(2) have st_i: "foldl ?f ([], {}) (take i ?E) = (cs_i, P_i)"
    by (simp add: stateAtTurn_pure)
  from assms(4) have no: "purePosts h rows P_i (i, rows ! i) = []"
    by (simp add: similarPosts_pure)
  have "?E = take i ?E @ ?E ! i # drop (Suc i) ?E"
    using assms(1) by (intro id_take_nth_drop) simp
  then have E: "?E = take i ?E @ (i, rows ! i) # drop (Suc i) ?E"
    using assms(1) by (simp add: nth_enumerate_eq)
  have "foldl ?f ([], {}) ?E = foldl ?f (?f (cs_i, P_i) (i, rows ! i)) (drop (Suc i) ?E)"
    by (subst E) (simp add: st_i)
  also have "?f (cs_i, P_i) (i, rows ! i) = (cs_i, P_i)"
    using no by (simp add: pureStep_def)
  finally have fin: "foldl ?f ([], {}) ?E = foldl ?f (cs_i, P_i) (drop (Suc i) ?E)" .
  obtain new where new: "fst (foldl ?f (cs_i, P_i) (drop (Suc i) ?E)) = cs_i @ new"
    "\<forall>c\<in>set new. mainPost c \<in> set (drop (Suc i) ?E)"
    using foldl_pureStep_extends[of h rows "(cs_i, P_i)" "drop (Suc i) ?E"] by auto
  have later: "\<forall>c\<in>set new. i < fst (mainPost c)"
    using new(2) set_drop_enumerate[of _ "Suc i" rows] by fastforce
  have "scanInv h rows i (cs_i, P_i)"
    using scanInv_take[of i rows h] assms(1) st_i by simp
  then have old: "\<forall>c\<in>set cs_i. i \<notin> set (clusterIndices c)"
    using assms(3) by (auto simp: scanInv_def)
  have ok: "\<forall>c\<in>set (cs_i @ new). clusterOk h rows c"
    using scanInv_final[of h rows] fin new(1) by (simp add: scanInv_def)
  have a: "\<forall>c\<in>set (cs_i @ new). fst (mainPost c) \<noteq> i"
    using old later by (auto simp: in_clusterIndices)
  have b: "\<forall>c\<in>set (cs_i @ new). i \<in> set (map index (relatedPosts c)) \<longrightarrow>
                 i < fst (mainPost c) \<and> scoreAbove h (snd (mainPost c)) (rows ! i) num_0_3"
  proof (intro ballI impI)
    fix c assume c: "c \<in> set (cs_i @ new)" and m: "i \<in> set (map index (relatedPosts c))"
    from old m have "c \<notin> set cs_i" by (auto simp: in_clusterIndices)
    with c later have "i < fst (mainPost c)" by auto
    moreover from ok c have okc: "clusterOk h rows c" by blast
    from clusterOk_member[OF okc m] okc
    have "scoreAbove h (snd (mainPost c)) (rows ! i) num_0_3" by (simp add: clusterOk_def)
    ultimately show "i < fst (mainPost c) \<and> scoreAbove h (snd (mainPost c)) (rows ! i) num_0_3"
      by simp
  qed
  have "identifySemanticClusters h rows = Inr (cs_i @ new)"
    by (simp add: identifySemanticClusters_pure fin new(1))
  with a b show ?thesis by blast
qed

theorem C4_witness:
  "\<exists>cs. identifySemanticClusters C4_heap [0, 1] = Inr cs
     \<and> (\<forall>c\<in>set cs. fst (mainPost c) \<noteq> 0)
     \<and> (\<forall>c\<in>set cs. 0 \<in> set (map index (relatedPosts c)) \<longrightarrow>
           0 < fst (mainPost c) \<and> scoreAbove C4_heap (snd (mainPost c)) 0 num_0_3)"
proof -
  have 1: "0 < length [0, 1::nat]" by simp
  have 2: "(0::nat) \<notin> {}" by simp
  have 3: "similarPosts C4_heap [0, 1] {} (0, [0, 1] ! 0) = Inr []"
    using C4_example_similarPosts by simp
  from C4_unanchored_row[OF 1 C4_example_state 2 3] show ?thesis by simp
qed

text \<open>
  Rows with keywords \<open>a\<close> and \<open>a,a\<close>: at the turn of row 0 nothing is claimed and no row is
  similar to it (score 0.25), yet row 0 ends as a member of the cluster anchored at row 1
  (score 0.5 in that order).
\<close>

theorem C4_counterexample:
  "stateAtTurn C4_heap [0, 1] 0 = Inr ([], {})
   \<and> similarPosts C4_heap [0, 1] {} (0, 0) = Inr []
   \<and> identifySemanticClusters C4_heap [0, 1] =
       Inr [\<lparr>cluster_id = ''cluster-0'', mainPost = (1, 1),
             relatedPosts = [\<lparr>index = 0, similarity = Fin (1 / 2), row = 0\<rparr>],
             theme = ''General'',
             internalLinkOpportunities =
               [\<lparr>fromIndex = 1, toIndex = 0, suggestedAnchor = ''x'',
                 relevance = Fin (1 / 2)\<rparr>]\<rparr>]"
  using C4_example_state C4_example_similarPosts C4_example_clusters by simp

lemma C5_example_clusters: "identifySemanticClusters C5_heap [0, 1, 2] = Inr [C5_cluster]"
  by code_simp

lemma clusterOk_scores:
  assumes "clusterOk h rows c" "p \<in> set (relatedPosts c)"
  shows "calculateSimilarity (rowPost h (snd (mainPost c))) (rowPost h (row p))
           = Inr (similarity p) \<and> js_gt (similarity p) num_0_3"
proof -
  from assms have "similarity p = scoreOf h (snd (mainPost c)) (row p)"
    and "js_gt (similarity p) num_0_3"
    unfolding clusterOk_def by blast+
  then show ?thesis by (simp add: rowScore_Inr)
qed

text \<open>
  C5, as amended. The members of every cluster are listed in ascending row index, the
  order of the input, and not by score; each member carries its score against the anchor,
  which exceeds 0.3.
\<close>

theorem C5_members_in_row_order:
  "\<exists>cs. identifySemanticClusters h rows = Inr cs
     \<and> (\<forall>c\<in>set cs. sorted_wrt (<) (map index (relatedPosts c))
           \<and> (\<forall>p\<in>set (relatedPosts c).
                 calculateSimilarity (rowPost h (snd (mainPost c))) (rowPost h (row p))
                   = Inr (similarity p)
                 \<and> js_gt (similarity p) num_0_3))"
proof -
  let ?st = "foldl (pureStep h rows) ([], {}) (enumerate 0 rows)"
  have "\<forall>c\<in>set (fst ?st). clusterOk h rows c"
    using scanInv_final[of h rows] by (simp add: scanInv_def)
  then have "\<forall>c\<in>set (fst ?st). sorted_wrt (<) (map index (relatedPosts c))
           \<and> (\<forall>p\<in>set (relatedPosts c).
                 calculateSimilarity (rowPost h (snd (mainPost c))) (rowPost h (row p))
                   = Inr (similarity p)
                 \<and> js_gt (similarity p) num_0_3)"
    using clusterOk_scores[of h rows] by (auto simp: clusterOk_def)
  then show ?thesis by (simp add: identifySemanticClusters_pure)
qed

theorem C5_witness:
  "sorted_wrt (<) (map index (relatedPosts C5_cluster))
   \<and> js_gt (similarity (relatedPosts C5_cluster ! 0)) num_0_3
   \<and> js_gt (similarity (relatedPosts C5_cluster ! 1)) num_0_3"
proof -
  from C5_members_in_row_order[of C5_heap "[0, 1, 2]"] C5_example_clusters
  have s: "sorted_wrt (<) (map index (relatedPosts C5_cluster))"
    and m: "\<forall>p\<in>set (relatedPosts C5_cluster). js_gt (similarity p) num_0_3"
    by auto
  have "relatedPosts C5_cluster ! 0 \<in> set (relatedPosts C5_cluster)"
    and "relatedPosts C5_cluster ! 1 \<in> set (relatedPosts C5_cluster)"
    by (simp_all add: C5_cluster_def)
  with s m show ?thesis by blast
qed

text \<open>
  Three rows of one pillar with keywords \<open>a,b\<close>, \<open>a,c\<close>, \<open>a,b\<close>: the members of the
  cluster of row 0 are rows 1 and 2 with scores 0.55 and 0.8, in ascending order.
\<close>

theorem C5_counterexample:
  "identifySemanticClusters C5_heap [0, 1, 2] = Inr [C5_cluster]
   \<and> \<not> descendingBySimilarity (relatedPosts C5_cluster)"
proof -
  have "\<not> descendingBySimilarity (relatedPosts C5_cluster)"
    by (simp add: descendingBySimilarity_def C5_cluster_def)
  with C5_example_clusters show ?thesis by simp
qed

lemma C7_example_original: "identifySemanticClusters C7_heap [0, 1, 2] = Inr C7_clusters"
  by code_simp

lemma C7_example_permuted:
  "identifySemanticClusters C7_heap [1, 0, 2] = Inr C7_clusters_permuted"
  by code_simp

lemma C7_example_groupings:
  "grouping C7_clusters = {{0, 1}}" "grouping C7_clusters_permuted = {{0, 1, 2}}"
  by (auto simp: grouping_def clusterRows_def C7_clusters_def C7_clusters_permuted_def)

text \<open>
  C7. Clustering depends on the order of the rows: for three rows of one pillar with
  keywords \<open>a\<close>, \<open>a,b\<close>, \<open>b\<close> the order 0, 1, 2 groups rows 0 and 1 and leaves row 2 out,
  and the order 1, 0, 2 of the same rows groups all three.
\<close>

theorem C7_order_dependent:
  "\<exists>h rows rows' cs cs'.
     mset rows' = mset rows
     \<and> identifySemanticClusters h rows = Inr cs
     \<and> identifySemanticClusters h rows' = Inr cs'
     \<and> grouping cs = {{0, 1}} \<and> grouping cs' = {{0, 1, 2}}
     \<and> grouping cs' \<noteq> grouping cs"
proof (intro exI conjI)
  show "mset [1, 0, 2::nat] = mset [0, 1, 2]" by simp
  show "identifySemanticClusters C7_heap [0, 1, 2] = Inr C7_clusters"
    by (rule C7_example_original)
  show "identifySemanticClusters C7_heap [1, 0, 2] = Inr C7_clusters_permuted"
    by (rule C7_example_permuted)
  show "grouping C7_clusters = {{0, 1}}" by (rule C7_example_groupings)
  show "grouping C7_clusters_permuted = {{0, 1, 2}}" by (rule C7_example_groupings)
  have "(2::nat) \<in> {0, 1, 2}" by simp
  moreover have "(2::nat) \<notin> {0, 1}" by simp
  ultimately have "{0, 1, 2::nat} \<noteq> {0, 1}" by metis
  then show "grouping C7_clusters_permuted \<noteq> grouping C7_clusters"
    by (simp only: C7_example_groupings singleton_insert_inj_eq' simp_thms) 
qed

section \<open>Facts about the internal link opportunities\<close>

lemma mapE_Inr_D:
  "mapE f xs = Inr ys \<Longrightarrow> length ys = length xs \<and> (\<forall>i<length xs. f (xs ! i) = Inr (ys ! i))"
proof (induction xs arbitrary: ys)
  case Nil
  then show ?case by simp
next
  case (Cons x xs)
  from Cons.prems obtain y ys' where y: "f x = Inr y" and ys': "mapE f xs = Inr ys'"
    and ys: "ys = y # ys'"
    by (auto split: sum.splits)
  from Cons.IH[OF ys'] y ys show ?case by (auto simp: nth_Cons')
qed

lemma filterE_Inr_D: "filterE f xs = Inr ys \<Longrightarrow> ys = filter (\<lambda>x. f x = Inr True) xs"
proof (induction xs arbitrary: ys)
  case Nil
  then show ?case by simp
next
  case (Cons x xs)
  from Cons.prems obtain b ys' where b: "f x = Inr b" and ys': "filterE f xs = Inr ys'"
    and ys: "ys = (if b then x # ys' else ys')"
    by (auto split: sum.splits)
  from Cons.IH[OF ys'] b ys show ?case by auto
qed

lemma findRelatedPublishedPosts_Inr:
  assumes "findRelatedPublishedPosts h cur rows = Inr links"
  shows "links = map (urlOf h)
           (take 3 (filter (\<lambda>r. published h r \<and> r \<noteq> cur \<and> linkScoreAbove h cur r num_0_2) rows))"
proof -
  let ?f = "\<lambda>r. case calculateSimilarity (rawPost h cur) (rawPost h r) of
                   Inl e \<Rightarrow> Inl e | Inr sim \<Rightarrow> Inr (js_gt sim num_0_2)"
  let ?cand = "filter (\<lambda>r. truthy (published_url (h r)) \<and> r \<noteq> cur) rows"
  from assms obtain related where r: "filterE ?f ?cand = Inr related"
    and l: "links = map (\<lambda>r. orElse (published_url (h r)) []) (take 3 related)"
    by (auto simp: findRelatedPublishedPosts_def split: sum.splits)
  have eq: "\<And>r. (?f r = Inr True) = linkScoreAbove h cur r num_0_2"
    by (simp add: linkScoreAbove_def split: sum.splits)
  from filterE_Inr_D[OF r] have "related = filter (\<lambda>r. linkScoreAbove h cur r num_0_2) ?cand"
    by (simp only: eq)
  then have "related
      = filter (\<lambda>r. published h r \<and> r \<noteq> cur \<and> linkScoreAbove h cur r num_0_2) rows"
    by (simp add: published_def conj_commute conj_left_commute)
  with l show ?thesis by (simp add: urlOf_def[abs_def])
qed

lemma identifyInternalLinkOpportunities_Inr:
  assumes "identifyInternalLinkOpportunities h rows = Inr es"
  shows "length es = length (filter (published h) rows)"
    and "\<And>i. i < length es \<Longrightarrow>
           postIndex (es ! i) = i
           \<and> url (es ! i) = urlOf h (filter (published h) rows ! i)
           \<and> findRelatedPublishedPosts h (filter (published h) rows ! i) rows
               = Inr (suggestedLinks (es ! i))"
proof -
  let ?pub = "filter (published h) rows"
  let ?g = "\<lambda>(i, r). case findRelatedPublishedPosts h r rows of
                      Inl e \<Rightarrow> Inl e
                    | Inr links \<Rightarrow>
                        Inr \<lparr>postIndex = i,
                             link_title = orElse (B (h r)) [],
                             url = orElse (published_url (h r)) [],
                             suggestedLinks = links\<rparr>"
  from assms have m: "mapE ?g (enumerate 0 ?pub) = Inr es"
    by (simp add: identifyInternalLinkOpportunities_def published_def[abs_def])
  from mapE_Inr_D[OF m] have len: "length es = length ?pub"
    and each: "\<forall>i<length ?pub. ?g (enumerate 0 ?pub ! i) = Inr (es ! i)"
    by simp_all
  show "length es = length ?pub" by (rule len)
  fix i assume "i < length es"
  with len each have "?g (i, ?pub ! i) = Inr (es ! i)" by (simp add: nth_enumerate_eq)
  then obtain links where "findRelatedPublishedPosts h (?pub ! i) rows = Inr links"
    and "es ! i = \<lparr>postIndex = i, link_title = orElse (B (h (?pub ! i))) [],
                    url = orElse (published_url (h (?pub ! i))) [], suggestedLinks = links\<rparr>"
    by (auto split: sum.splits)
  then show "postIndex (es ! i) = i
           \<and> url (es ! i) = urlOf h (?pub ! i)
           \<and> findRelatedPublishedPosts h (?pub ! i) rows = Inr (suggestedLinks (es ! i))"
    by (simp add: urlOf_def)
qed

text \<open>
  \<open>identifyInternalLinkOpportunities\<close> returns when every published row has its columns
  \<open>B\<close> and \<open>C\<close>; a published row without one of them, compared with another published
  row, makes it throw.
\<close>

lemma mapE_total: "(\<And>x. x \<in> set xs \<Longrightarrow> \<exists>y. f x = Inr y) \<Longrightarrow> \<exists>ys. mapE f xs = Inr ys"
proof (induction xs)
  case Nil
  show ?case by simp
next
  case (Cons x xs)
  then obtain y ys where "f x = Inr y" "mapE f xs = Inr ys" by (meson list.set_intros)
  then show ?case by simp
qed

lemma filterE_total:
  "(\<And>x. x \<in> set xs \<Longrightarrow> \<exists>b. f x = Inr b) \<Longrightarrow> \<exists>ys. filterE f xs = Inr ys"
proof (induction xs)
  case Nil
  show ?case by simp
next
  case (Cons x xs)
  then obtain b ys where "f x = Inr b" "filterE f xs = Inr ys" by (meson list.set_intros)
  then show ?case by simp
qed

lemma rawScore_defined:
  assumes "B (h a) \<noteq> None" "C (h a) \<noteq> None" "B (h b) \<noteq> None" "C (h b) \<noteq> None"
  shows "\<exists>s. calculateSimilarity (rawPost h a) (rawPost h b) = Inr s"
proof -
  from assms obtain t1 k1 t2 k2 where
    "B (h a) = Some t1" "C (h a) = Some k1" "B (h b) = Some t2" "C (h b) = Some k2"
    by auto
  then show ?thesis
    using calculateSimilarity_Some[of t1 k1 "D (h a)" t2 k2 "D (h b)"]
    by (auto simp: rawPost_def)
qed

lemma identifyInternalLinkOpportunities_returns:
  assumes "\<And>r. r \<in> set rows \<Longrightarrow> published h r \<Longrightarrow> B (h r) \<noteq> None \<and> C (h r) \<noteq> None"
  shows "\<exists>es. identifyInternalLinkOpportunities h rows = Inr es"
proof -
  have rel: "\<exists>links. findRelatedPublishedPosts h r rows = Inr links"
    if r: "r \<in> set rows" "published h r" for r
  proof -
    let ?f = "\<lambda>r'. case calculateSimilarity (rawPost h r) (rawPost h r') of
                     Inl e \<Rightarrow> Inl e | Inr sim \<Rightarrow> Inr (js_gt sim num_0_2)"
    let ?cand = "filter (\<lambda>r'. truthy (published_url (h r')) \<and> r' \<noteq> r) rows"
    have "\<exists>b. ?f r' = Inr b" if "r' \<in> set ?cand" for r'
    proof -
      from that have "r' \<in> set rows" "published h r'" by (simp_all add: published_def)
      with assms r rawScore_defined[of h r r'] obtain s where
        "calculateSimilarity (rawPost h r) (rawPost h r') = Inr s" by blast
      then show ?thesis by simp
    qed
    then obtain related where "filterE ?f ?cand = Inr related"
      using filterE_total[of ?cand ?f] by blast
    then show ?thesis by (simp add: findRelatedPublishedPosts_def)
  qed
  let ?g = "\<lambda>(i, r). case findRelatedPublishedPosts h r rows of
                      Inl e \<Rightarrow> Inl e
                    | Inr links \<Rightarrow>
                        Inr \<lparr>postIndex = i,
                             link_title = orElse (B (h r)) [],
                             url = orElse (published_url (h r)) [],
                             suggestedLinks = links\<rparr>"
  have "\<exists>y. ?g x = Inr y"
    if "x \<in> set (enumerate 0 (filter (\<lambda>r. truthy (published_url (h r))) rows))" for x
  proof -
    obtain i r where x: "x = (i, r)" by (cases x)
    from that have "snd x \<in> snd ` set (enumerate 0 (filter (\<lambda>r. truthy (published_url (h r))) rows))"
      by (rule imageI)
    then have "snd x \<in> set (map snd (enumerate 0 (filter (\<lambda>r. truthy (published_url (h r))) rows)))"
      by (simp only: set_map)
    with x have "r \<in> set (filter (\<lambda>r. truthy (published_url (h r))) rows)"
      by simp
    then have "r \<in> set rows" "published h r" by (simp_all add: published_def)
    from rel[OF this] x show ?thesis by auto
  qed
  then show ?thesis
    unfolding identifyInternalLinkOpportunities_def by (rule mapE_total)
qed

lemma identifyInternalLinkOpportunities_throws:
  "identifyInternalLinkOpportunities
     (heapOf [\<lparr>B = Some ''t'', C = None, D = None, published_url = Some ''u''\<rparr>,
              mkRow ''t'' ''k'' ''p'' (Some ''v'')]) [0, 1] = Inl TypeError"
  by code_simp

lemma C8_example_score:
  "calculateSimilarity \<lparr>title = Some ''t'', keywords' = Some ''k'', pillar = Some ''p''\<rparr>
     \<lparr>title = Some ''t'', keywords' = Some ''k'', pillar = Some ''p''\<rparr> = Inr (Fin 1)"
  by code_simp

lemma C8_example_threshold: "js_gt (Fin 1) num_0_2"
  by code_simp

lemma C8_example_entries: "identifyInternalLinkOpportunities C8_heap [0, 1, 2, 3, 4, 5] = Inr C8_entries"
  by (simp add: identifyInternalLinkOpportunities_def findRelatedPublishedPosts_def rawPost_def
      C8_heap_def heapOf_def mkRow_def truthy_def orElse_def C8_entries_def
      C8_example_score C8_example_threshold)

lemma C8_dup_example_entries: "identifyInternalLinkOpportunities C8_dup_heap [0, 1] = Inr C8_dup_entries"
  by (simp add: identifyInternalLinkOpportunities_def findRelatedPublishedPosts_def rawPost_def
      C8_dup_heap_def heapOf_def mkRow_def truthy_def orElse_def C8_dup_entries_def
      C8_example_score C8_example_threshold)


section \<open>Internal link opportunities: suggestions and positions\<close>

text \<open>
  C8, as amended. When \<open>identifyInternalLinkOpportunities\<close> returns, it has one entry for
  each published row, in row order, and the \<open>suggestedLinks\<close> of the entry of a source
  row are the URLs of the first three rows, in the order of the row list and not sorted
  by score, that are published, are not the source row object itself and score above
  0.2 against it; so the list has at most 3 URLs. The source row is excluded as an
  object, not by its URL.
\<close>

theorem C8_suggested_links:
  assumes "identifyInternalLinkOpportunities h rows = Inr es"
  shows "length es = length (filter (published h) rows)
         \<and> (\<forall>i<length es.
               length (suggestedLinks (es ! i)) \<le> 3
               \<and> suggestedLinks (es ! i) = map (urlOf h)
                   (take 3 (filter (\<lambda>r. published h r \<and> r \<noteq> filter (published h) rows ! i
                                        \<and> linkScoreAbove h (filter (published h) rows ! i) r num_0_2)
                              rows)))"
proof (intro conjI allI impI)
  show "length es = length (filter (published h) rows)"
    using assms by (rule identifyInternalLinkOpportunities_Inr(1))
next
  fix i assume i: "i < length es"
  from identifyInternalLinkOpportunities_Inr(2)[OF assms i]
  have "findRelatedPublishedPosts h (filter (published h) rows ! i) rows
          = Inr (suggestedLinks (es ! i))" by simp
  then show eq: "suggestedLinks (es ! i) = map (urlOf h)
      (take 3 (filter (\<lambda>r. published h r \<and> r \<noteq> filter (published h) rows ! i
                           \<and> linkScoreAbove h (filter (published h) rows ! i) r num_0_2) rows))"
    by (rule findRelatedPublishedPosts_Inr)
  show "length (suggestedLinks (es ! i)) \<le> 3" by (subst eq) simp
qed

theorem C8_witness:
  "length (suggestedLinks (C8_entries ! 4)) \<le> 3
   \<and> map (urlOf C8_heap)
        (take 3 (filter (\<lambda>r. published C8_heap r
                           \<and> r \<noteq> filter (published C8_heap) [0, 1, 2, 3, 4, 5] ! 4
                           \<and> linkScoreAbove C8_heap
                                (filter (published C8_heap) [0, 1, 2, 3, 4, 5] ! 4) r num_0_2)
                   [0, 1, 2, 3, 4, 5]))
       = [''u0'', ''u2'', ''u3'']"
proof -
  have len: "(4::nat) < length C8_entries" by (simp add: C8_entries_def)
  have val: "suggestedLinks (C8_entries ! 4) = [''u0'', ''u2'', ''u3'']"
    by (simp add: C8_entries_def)
  note inst = C8_suggested_links[OF C8_example_entries, THEN conjunct2, rule_format, OF len]
  show ?thesis
  proof (rule conjI)
    show "length (suggestedLinks (C8_entries ! 4)) \<le> 3" by (rule inst[THEN conjunct1])
    show "map (urlOf C8_heap)
        (take 3 (filter (\<lambda>r. published C8_heap r
                           \<and> r \<noteq> filter (published C8_heap) [0, 1, 2, 3, 4, 5] ! 4
                           \<and> linkScoreAbove C8_heap
                                (filter (published C8_heap) [0, 1, 2, 3, 4, 5] ! 4) r num_0_2)
                   [0, 1, 2, 3, 4, 5]))
       = [''u0'', ''u2'', ''u3'']"
      by (rule trans[OF inst[THEN conjunct2, symmetric] val])
  qed
qed

text \<open>
  Two distinct published rows with the same URL and the same content: each one's
  suggestion list holds the other's URL, which is its own.
\<close>

theorem C8_counterexample:
  "identifyInternalLinkOpportunities C8_dup_heap [0, 1] = Inr C8_dup_entries
   \<and> url (C8_dup_entries ! 0) \<in> set (suggestedLinks (C8_dup_entries ! 0))"
  using C8_dup_example_entries by (simp add: C8_dup_entries_def)



section \<open>The end-to-end example\<close>

lemma C9_score_0_2: "calculateSimilarity (rowPost C9_heap 0) (rowPost C9_heap 2) = Inr num_0_3"
  by code_simp

lemma C9_threshold: "\<not> js_gt num_0_3 num_0_3"
  by (simp add: num_0_3_def)

lemma C9_clusters: "identifySemanticClusters C9_heap [0, 1, 2] = Inr [C9_cluster]"
  by code_simp

lemma C9_links:
  "identifyInternalLinkOpportunities C9_heap [0, 1, 2] =
     Inr [\<lparr>postIndex = 0, link_title = ''Hudson Valley Wine Tasting Guide'',
           url = ''https://example.com/p1'', suggestedLinks = []\<rparr>]"
  by code_simp

lemma C9_pillars:
  "analyzePillarDistribution C9_heap [0, 1, 2]
     = [(''Wine Education'', 2), (''Events & Experiences'', 1)]"
  by code_simp

lemma C9_suggested: "\<lceil>fl (of_nat (length [0, 1, 2::nat]) * fl (2 / 10))\<rceil> = 1"
  by code_simp

lemma C9_gaps: "identifyContentGaps C9_heap [0, 1, 2] = []"
  by code_simp

lemma C9_published: "filter (\<lambda>r. truthy (published_url (C9_heap r))) [0, 1, 2] = [0]"
  by code_simp

text \<open>
  C9. On the three rows of the example, the first one published, the analysis returns
  exactly one cluster, anchored at the first row with the second row as its only member;
  the third row is in no cluster, its score against the first row being the double 0.3
  itself, which is not above the threshold 0.3. The pillar distribution counts two rows
  for \<open>Wine Education\<close> and one for \<open>Events & Experiences\<close>, and there is no content gap.
\<close>

theorem C9_end_to_end:
  "analyzeContentHolistically C9_heap [0, 1, 2] = Inr C9_result
   \<and> semanticClusters C9_result = [C9_cluster]
   \<and> clusterIndices C9_cluster = [0, 1]
   \<and> calculateSimilarity (rowPost C9_heap 0) (rowPost C9_heap 2) = Inr num_0_3
   \<and> \<not> js_gt num_0_3 num_0_3
   \<and> pillarDistribution C9_result = [(''Wine Education'', 2), (''Events & Experiences'', 1)]
   \<and> contentGaps C9_result = []"
proof -
  have "analyzeContentHolistically C9_heap [0, 1, 2] = Inr C9_result"
    unfolding analyzeContentHolistically_def C9_clusters C9_links C9_pillars C9_gaps
      C9_published C9_result_def
    by simp
  moreover have "clusterIndices C9_cluster = [0, 1]"
    by (simp add: clusterIndices_def C9_cluster_def)
  ultimately show ?thesis
    using C9_score_0_2 C9_threshold by (simp add: C9_result_def)
qed

end
